theory Spec2Isabelle
  imports Main
begin

section \<open>UPS collection client: a shallow embedding of \<open>scripts/ups-client.ts\<close>\<close>

text \<open>
  The client drives a browser through Playwright. Everything outside the process (the
  browser, the page, the file system calls that may fail) is an \<^emph>\<open>oracle\<close>: a function
  that answers each external call. The model threads an explicit world (files, the
  client's fields, the log of external calls) through the code and returns either the
  thrown message (\<open>Inl\<close>) or the value (\<open>Inr\<close>). Theorems quantify over every oracle.
\<close>

subsection \<open>Numbers as text\<close>

definition digit :: "nat \<Rightarrow> char" where
  "digit n = ''0123456789'' ! (n mod 10)"

fun show_nat :: "nat \<Rightarrow> string" where
  "show_nat n = (if n < 10 then [digit n] else show_nat (n div 10) @ [digit n])"

declare show_nat.simps [simp del]

text \<open>\<open>String(n)\<close> and the interpolation of a number in a template literal.\<close>

definition String_of :: "int \<Rightarrow> string" where
  "String_of i = (if i < 0 then CHR ''-'' # show_nat (nat (- i)) else show_nat (nat i))"

definition pad :: "nat \<Rightarrow> string \<Rightarrow> string" where
  "pad k s = replicate (k - length s) CHR ''0'' @ s"

subsection \<open>The JavaScript \<open>Date\<close>\<close>

text \<open>
  A \<open>Date\<close> is a number of milliseconds since the epoch. Its local fields (\<open>getHours\<close>,
  \<open>getDay\<close>, \<open>setDate\<close>) are read in the time zone of the process, its ISO string in UTC.
  A time zone is its offset from UTC in minutes (east positive) at the moment of the call:
  \<open>london\<close> is 0 in winter and 60 in summer; \<open>zone\<close> is the offset of the process.
\<close>

record clock =
  now :: int
  london :: int
  zone :: int

definition msPerMinute :: int where "msPerMinute = 60000"
definition msPerHour :: int where "msPerHour = 3600000"
definition msPerDay :: int where "msPerDay = 86400000"

text \<open>
  \<open>new Date(now.toLocaleString("en-US", {timeZone: "Europe/London"}))\<close>: the London wall
  clock, printed to the second, is parsed back as a wall clock of the process.
\<close>

definition ukTime :: "clock \<Rightarrow> int" where
  "ukTime c = ((now c + london c * msPerMinute) div 1000) * 1000 - zone c * msPerMinute"

definition getHours :: "clock \<Rightarrow> int \<Rightarrow> int" where
  "getHours c t = ((t + zone c * msPerMinute) div msPerHour) mod 24"

text \<open>Day of the week of the local day, 0 for Sunday; 1 January 1970 was a Thursday.\<close>

definition getDay :: "clock \<Rightarrow> int \<Rightarrow> int" where
  "getDay c t = ((t + zone c * msPerMinute) div msPerDay + 4) mod 7"

text \<open>\<open>d.setDate(d.getDate() + 1)\<close>: the same local time on the next local day.\<close>

definition nextDay :: "int \<Rightarrow> int" where
  "nextDay t = t + msPerDay"

text \<open>The civil date of a day number (days since the epoch), proleptic Gregorian.\<close>

definition civil :: "int \<Rightarrow> int \<times> int \<times> int" where
  "civil z0 =
     (let z = z0 + 719468;
          era = z div 146097;
          doe = z - era * 146097;
          yoe = (doe - doe div 1460 + doe div 36524 - doe div 146096) div 365;
          doy = doe - (365 * yoe + yoe div 4 - yoe div 100);
          mp = (5 * doy + 2) div 153;
          d = doy - (153 * mp + 2) div 5 + 1;
          m = (if mp < 10 then mp + 3 else mp - 9);
          y = yoe + era * 400 + (if m \<le> 2 then 1 else 0)
      in (y, m, d))"

text \<open>
  \<open>d.toISOString().split("T")[0]\<close>: the UTC date, the year on four digits from 0 to 9999
  and signed on six digits otherwise.
\<close>

definition isoYear :: "int \<Rightarrow> string" where
  "isoYear y =
     (if 0 \<le> y \<and> y \<le> 9999 then pad 4 (show_nat (nat y))
      else (if y < 0 then ''-'' else ''+'') @ pad 6 (show_nat (nat \<bar>y\<bar>)))"

definition isoDay :: "int \<Rightarrow> string" where
  "isoDay z = (case civil z of (y, m, d) \<Rightarrow>
     isoYear y @ ''-'' @ pad 2 (show_nat (nat m)) @ ''-'' @ pad 2 (show_nat (nat d)))"

definition toISODate :: "int \<Rightarrow> string" where
  "toISODate t = isoDay (t div msPerDay)"

subsection \<open>Smart defaults\<close>

text \<open>The loop \<open>while (getDay() === 0 || getDay() === 6) setDate(getDate() + 1)\<close>.\<close>

function skipWeekend :: "clock \<Rightarrow> int \<Rightarrow> int" where
  "skipWeekend c t =
     (if getDay c t = 0 \<or> getDay c t = 6 then skipWeekend c (nextDay t) else t)"
  by pat_completeness auto
termination
proof (relation "measure (\<lambda>(c, t). nat ((8 - getDay c t) mod 7))")
  show "wf (measure (\<lambda>(c, t). nat ((8 - getDay c t) mod 7)))" by simp
next
  fix c :: clock and t :: int
  assume we: "getDay c t = 0 \<or> getDay c t = 6"
  have shift: "(t + msPerDay + zone c * msPerMinute) div msPerDay
      = (t + zone c * msPerMinute) div msPerDay + 1"
    by (simp add: msPerDay_def)
  have nxt: "getDay c (nextDay t) = (getDay c t + 1) mod 7"
    unfolding getDay_def nextDay_def shift by (simp add: mod_simps add.commute add.left_commute)
  from we show "((c, nextDay t), (c, t)) \<in> measure (\<lambda>(c, t). nat ((8 - getDay c t) mod 7))"
    by (auto simp: nxt)
qed

declare skipWeekend.simps [simp del]

definition getSmartDate :: "clock \<Rightarrow> string" where
  "getSmartDate c =
     (let uk = ukTime c;
          hour = getHours c uk;
          targetDate = (if hour \<ge> 13 then nextDay uk else uk)
      in toISODate (skipWeekend c targetDate))"

definition getSmartEarliestTime :: "clock \<Rightarrow> string" where
  "getSmartEarliestTime c =
     (let hour = getHours c (ukTime c)
      in if hour \<ge> 12 \<and> hour < 17 then String_of (hour + 1) @ '':00'' else ''12:00'')"


text \<open>\<open>d.toISOString()\<close> in full, for the \<open>createdAt\<close> field of the session descriptor.\<close>

definition toISOString :: "int \<Rightarrow> string" where
  "toISOString t =
     toISODate t @ ''T'' @ pad 2 (show_nat (nat ((t div msPerHour) mod 24))) @ '':''
       @ pad 2 (show_nat (nat ((t div msPerMinute) mod 60))) @ '':''
       @ pad 2 (show_nat (nat ((t div 1000) mod 60))) @ ''.''
       @ pad 3 (show_nat (nat (t mod 1000))) @ ''Z''"

subsection \<open>Paths, addresses and defaults\<close>

definition SESSION_PATH :: string where "SESSION_PATH = ''/tmp/ups-session.json''"
definition SCREENSHOT_DIR :: string where "SCREENSHOT_DIR = ''/home/USER/biz/.playwright-mcp''"
definition USER_DATA_DIR :: string where "USER_DATA_DIR = ''/tmp/ups-browser-profile''"

definition UPS_LOGIN_URL :: string where
  "UPS_LOGIN_URL =
     ''https://www.ups.com/lasso/login?loc=en_GB&returnto=https://wwwapps.ups.com/pickup/schedule?loc=en_GB''"
definition UPS_FORM_URL :: string where
  "UPS_FORM_URL = ''https://wwwapps.ups.com/pickup/schedule?loc=en_GB''"

record Defaults =
  company :: string
  address :: string
  city :: string
  postalCode :: string
  telephone :: string
  collectFrom :: string
  email :: string
  paymentAccount :: string

definition DEFAULTS :: Defaults where
  "DEFAULTS = \<lparr>company = ''YOUR_COMPANY'',
     address = ''YOUR_WAREHOUSE_ADDRESS_LINE_1, YOUR_WAREHOUSE_ADDRESS_LINE_2'',
     city = ''YOUR_CITY'', postalCode = ''YOUR_POSTCODE'', telephone = ''YOUR_PHONE_NUMBER'',
     collectFrom = ''Front Door'', email = ''YOUR_LOGISTICS_EMAIL'',
     paymentAccount = ''YOUR_UPS_ACCOUNT''\<rparr>"

subsection \<open>Data\<close>

record SessionInfo =
  wsEndpoint :: string
  createdAt :: string
  formFilled :: bool
  loggedIn :: bool

record Config =
  username :: string
  password :: string

text \<open>An absent field of an options object is \<open>None\<close>; a \<open>number\<close> is an integer here.\<close>

record FillFormOptions =
  date :: "string option"
  packages :: "int option"
  weight :: "int option"
  earliestTime :: "string option"
  latestTime :: "string option"
  doorCode :: "string option"
  specialInstructions :: "string option"

record FormState =
  fs_date :: string
  fs_packages :: int
  fs_weight :: int
  fs_earliestTime :: string
  fs_latestTime :: string
  fs_specialInstructions :: "string option"
  fs_company :: string
  fs_address :: string
  fs_city :: string
  fs_postalCode :: string

text \<open>
  What \<open>extractConfirmation\<close> returns: the record computed inside the page (kept as the
  text the page handed back), or only the fixed \<open>pageText\<close> when the evaluation threw.
\<close>

datatype confirmation = Extracted string | PageTextOnly string

text \<open>
  The operations return untyped objects. A result is the record of every key any of them
  sets; an absent key is \<open>None\<close> (\<open>False\<close> for the two discriminators).
\<close>

record result =
  success :: bool
  error :: bool
  message :: string
  screenshot :: "string option"
  reviewScreenshot :: "string option"
  fillScreenshot :: "string option"
  confirmationScreenshot :: "string option"
  errorScreenshot :: "string option"
  formState :: "FormState option"
  confirmation :: "confirmation option"

definition no_result :: result where
  "no_result = \<lparr>success = False, error = False, message = [], screenshot = None,
     reviewScreenshot = None, fillScreenshot = None, confirmationScreenshot = None,
     errorScreenshot = None, formState = None, confirmation = None\<rparr>"

text \<open>The screenshot paths a result carries, under any of its keys.\<close>

definition screenshots :: "result \<Rightarrow> string list" where
  "screenshots r = concat (map (\<lambda>f. case f r of None \<Rightarrow> [] | Some p \<Rightarrow> [p])
     [screenshot, reviewScreenshot, fillScreenshot, confirmationScreenshot, errorScreenshot])"

subsection \<open>External calls and the world\<close>

text \<open>
  Every call that leaves the process, in the order the client makes them. An element
  handle is the text the oracle returned for the query that found it.
\<close>

datatype call =
    Mkdir string | ReadFile string | WriteFile string | Unlink string
  | ConnectOverCDP string | Contexts | Pages | Launch | NewContext | NewPage | WsEndpoint
  | CloseBrowser
  | Goto string | WaitForTimeout nat | WaitForLoadState string | WaitForSelector string nat
  | WaitForLogin | Evaluate string string | Screenshot string
  | Query string | QueryFrom string string | GetAttribute string string
  | Click string | Fill string string | SelectOption string string
  | IsVisible string | ScrollIntoView string

text \<open>A call throws, returns nothing (\<open>null\<close>, \<open>undefined\<close>, an empty array) or a value.\<close>

datatype answer = Throws string | Nothing | Value string

type_synonym answers = "nat \<Rightarrow> call \<Rightarrow> answer"

text \<open>The calls that act on the page: navigation, waiting, scripts, queries, clicks, fills.\<close>

fun page_call :: "call \<Rightarrow> bool" where
  "page_call (Mkdir _) = False"
| "page_call (ReadFile _) = False"
| "page_call (WriteFile _) = False"
| "page_call (Unlink _) = False"
| "page_call (ConnectOverCDP _) = False"
| "page_call Contexts = False"
| "page_call Pages = False"
| "page_call Launch = False"
| "page_call NewContext = False"
| "page_call NewPage = False"
| "page_call WsEndpoint = False"
| "page_call CloseBrowser = False"
| "page_call _ = True"

datatype entry = Directory | Other | Json SessionInfo

datatype origin = Reconnected | Launched

record world =
  files :: "string \<Rightarrow> entry option"
  config :: Config
  browser :: "origin option"
  ctx :: "origin option"
  page :: "origin option"
  clk :: clock
  trace :: "call list"

subsection \<open>Sequencing, exceptions, external calls\<close>

type_synonym 'a prog = "world \<Rightarrow> (string + 'a) \<times> world"

definition ret :: "'a \<Rightarrow> 'a prog" where
  "ret x = (\<lambda>w. (Inr x, w))"

definition raise :: "string \<Rightarrow> 'a prog" where
  "raise e = (\<lambda>w. (Inl e, w))"

definition andThen :: "'a prog \<Rightarrow> ('a \<Rightarrow> 'b prog) \<Rightarrow> 'b prog" where
  "andThen m f = (\<lambda>w. case m w of (Inl e, w') \<Rightarrow> (Inl e, w') | (Inr x, w') \<Rightarrow> f x w')"

definition tryCatch :: "'a prog \<Rightarrow> (string \<Rightarrow> 'a prog) \<Rightarrow> 'a prog" where
  "tryCatch m h = (\<lambda>w. case m w of (Inl e, w') \<Rightarrow> h e w' | (Inr x, w') \<Rightarrow> (Inr x, w'))"

definition void :: "'a prog \<Rightarrow> unit prog" where
  "void m = andThen m (\<lambda>_. ret ())"

definition ignoreErrors :: "'a prog \<Rightarrow> unit prog" where
  "ignoreErrors m = tryCatch (void m) (\<lambda>_. ret ())"

definition reads :: "(world \<Rightarrow> 'a) \<Rightarrow> 'a prog" where
  "reads f = (\<lambda>w. (Inr (f w), w))"

definition modify :: "(world \<Rightarrow> world) \<Rightarrow> unit prog" where
  "modify f = (\<lambda>w. (Inr (), f w))"

text \<open>A test on the world: \<open>if (existsSync(path)) ...\<close>, \<open>if (this.browser) ...\<close>.\<close>

definition ifW :: "(world \<Rightarrow> bool) \<Rightarrow> 'a prog \<Rightarrow> 'a prog \<Rightarrow> 'a prog" where
  "ifW b m1 m2 = (\<lambda>w. if b w then m1 w else m2 w)"

definition whenW :: "(world \<Rightarrow> bool) \<Rightarrow> unit prog \<Rightarrow> unit prog" where
  "whenW b m = ifW b m (ret ())"

text \<open>An external call is logged, then answered by the oracle at its position in the log.\<close>

definition ext :: "answers \<Rightarrow> call \<Rightarrow> string option prog" where
  "ext orc c = (\<lambda>w.
     let w' = w\<lparr>trace := trace w @ [c]\<rparr>
     in case orc (length (trace w)) c of
          Throws e \<Rightarrow> (Inl e, w')
        | Nothing \<Rightarrow> (Inr None, w')
        | Value v \<Rightarrow> (Inr (Some v), w'))"

text \<open>Truthiness of an optional string and of an optional number.\<close>

definition truthy :: "string option \<Rightarrow> bool" where
  "truthy s = (case s of None \<Rightarrow> False | Some v \<Rightarrow> v \<noteq> [])"

definition truthy_num :: "int option \<Rightarrow> bool" where
  "truthy_num n = (case n of None \<Rightarrow> False | Some v \<Rightarrow> v \<noteq> 0)"

subsection \<open>The file system\<close>

definition existsSync :: "string \<Rightarrow> world \<Rightarrow> bool" where
  "existsSync p w = (files w p \<noteq> None)"

definition readFileSync :: "answers \<Rightarrow> string \<Rightarrow> entry prog" where
  "readFileSync orc p =
     andThen (ext orc (ReadFile p)) (\<lambda>_.
     andThen (reads (\<lambda>w. files w p)) (\<lambda>found.
     case found of
       None \<Rightarrow> raise ''ENOENT''
     | Some Directory \<Rightarrow> raise ''EISDIR''
     | Some e \<Rightarrow> ret e))"

definition writeFileSync :: "answers \<Rightarrow> string \<Rightarrow> entry \<Rightarrow> unit prog" where
  "writeFileSync orc p e = andThen (ext orc (WriteFile p)) (\<lambda>_.
     modify (\<lambda>w. w\<lparr>files := (files w)(p \<mapsto> e)\<rparr>))"

definition unlinkSync :: "answers \<Rightarrow> string \<Rightarrow> unit prog" where
  "unlinkSync orc p =
     andThen (ext orc (Unlink p)) (\<lambda>_.
     andThen (reads (\<lambda>w. files w p)) (\<lambda>found.
     case found of
       None \<Rightarrow> raise ''ENOENT''
     | Some Directory \<Rightarrow> raise ''EISDIR''
     | Some e \<Rightarrow> modify (\<lambda>w. w\<lparr>files := (files w)(p := None)\<rparr>)))"

definition mkdirSync :: "answers \<Rightarrow> string \<Rightarrow> unit prog" where
  "mkdirSync orc p = andThen (ext orc (Mkdir p)) (\<lambda>_.
     modify (\<lambda>w. w\<lparr>files := (files w)(p \<mapsto> Directory)\<rparr>))"

definition JSON_parse :: "entry \<Rightarrow> SessionInfo prog" where
  "JSON_parse e = (case e of Json s \<Rightarrow> ret s | _ \<Rightarrow> raise ''SyntaxError'')"


subsection \<open>Session store\<close>

text \<open>
  The reconnection attempt of \<open>ensureBrowser\<close> (the body of its \<open>try\<close>): the page found,
  or \<open>None\<close> when the browser has no context or the context no page.
\<close>

definition reconnect :: "answers \<Rightarrow> origin option prog" where
  "reconnect orc =
     andThen (readFileSync orc SESSION_PATH) (\<lambda>raw.
     andThen (JSON_parse raw) (\<lambda>session.
     andThen (ext orc (ConnectOverCDP (wsEndpoint session))) (\<lambda>_.
     andThen (modify (\<lambda>w. w\<lparr>browser := Some Reconnected\<rparr>)) (\<lambda>_.
     andThen (ext orc Contexts) (\<lambda>contexts.
       if contexts \<noteq> None then
         andThen (modify (\<lambda>w. w\<lparr>ctx := Some Reconnected\<rparr>)) (\<lambda>_.
         andThen (ext orc Pages) (\<lambda>pages.
           if pages \<noteq> None then
             andThen (modify (\<lambda>w. w\<lparr>page := Some Reconnected\<rparr>)) (\<lambda>_.
             ret (Some Reconnected))
           else ret None))
       else ret None)))))"

definition singletonFiles :: "string list" where
  "singletonFiles = [''SingletonLock'', ''SingletonSocket'', ''SingletonCookie'']"

fun removeSingletons :: "answers \<Rightarrow> string list \<Rightarrow> unit prog" where
  "removeSingletons orc [] = ret ()"
| "removeSingletons orc (file # rest) =
     andThen (whenW (existsSync (USER_DATA_DIR @ ''/'' @ file))
                (tryCatch (unlinkSync orc (USER_DATA_DIR @ ''/'' @ file)) (\<lambda>_. ret ())))
       (\<lambda>_. removeSingletons orc rest)"

text \<open>The fresh launch of \<open>ensureBrowser\<close>, from the singleton files to the saved session.\<close>

definition launchFresh :: "answers \<Rightarrow> origin prog" where
  "launchFresh orc =
     andThen (removeSingletons orc singletonFiles) (\<lambda>_.
     andThen (ext orc Launch) (\<lambda>_.
     andThen (modify (\<lambda>w. w\<lparr>browser := Some Launched\<rparr>)) (\<lambda>_.
     andThen (ext orc NewContext) (\<lambda>_.
     andThen (modify (\<lambda>w. w\<lparr>ctx := Some Launched\<rparr>)) (\<lambda>_.
     andThen (ext orc NewPage) (\<lambda>_.
     andThen (modify (\<lambda>w. w\<lparr>page := Some Launched\<rparr>)) (\<lambda>_.
     andThen (ext orc WsEndpoint) (\<lambda>ws.
     andThen (if truthy ws then
                andThen (reads (\<lambda>w. now (clk w))) (\<lambda>t.
                writeFileSync orc SESSION_PATH
                  (Json \<lparr>wsEndpoint = the ws, createdAt = toISOString t,
                         formFilled = False, loggedIn = False\<rparr>))
              else ret ()) (\<lambda>_.
     ret Launched)))))))))"

definition ensureBrowser :: "answers \<Rightarrow> origin prog" where
  "ensureBrowser orc =
     andThen (whenW (\<lambda>w. \<not> existsSync USER_DATA_DIR w) (mkdirSync orc USER_DATA_DIR)) (\<lambda>_.
     andThen (ifW (existsSync SESSION_PATH)
                (tryCatch (reconnect orc)
                   (\<lambda>_. andThen (tryCatch (unlinkSync orc SESSION_PATH) (\<lambda>_. ret ()))
                           (\<lambda>_. ret None)))
                (ret None)) (\<lambda>found.
     case found of Some p \<Rightarrow> ret p | None \<Rightarrow> launchFresh orc))"

text \<open>\<open>Object.assign(session, updates)\<close> is the function \<open>updates\<close> on the record.\<close>

definition updateSession :: "answers \<Rightarrow> (SessionInfo \<Rightarrow> SessionInfo) \<Rightarrow> unit prog" where
  "updateSession orc updates =
     whenW (existsSync SESSION_PATH)
       (andThen (readFileSync orc SESSION_PATH) (\<lambda>raw.
        andThen (JSON_parse raw) (\<lambda>session.
        writeFileSync orc SESSION_PATH (Json (updates session)))))"

subsection \<open>Consent banners\<close>

definition cookieButtonSelectors :: "string list" where
  \<open>cookieButtonSelectors =
     [''#onetrust-accept-btn-handler'', ''#accept-recommended-btn-handler'',
      ''button[id*="accept"]'', ''button:has-text("Accept All")'',
      ''button:has-text("Accept Cookies")'', ''button:has-text("Accept")'',
      ''button:has-text("I Agree")'', ''button:has-text("Got it")'']\<close>

fun clickCookieButton :: "answers \<Rightarrow> string list \<Rightarrow> unit prog" where
  "clickCookieButton orc [] = ret ()"
| "clickCookieButton orc (selector # rest) =
     andThen (tryCatch
                (andThen (ext orc (Query selector)) (\<lambda>button.
                   case button of
                     None \<Rightarrow> ret False
                   | Some b \<Rightarrow> andThen (ext orc (Click b)) (\<lambda>_.
                              andThen (ext orc (WaitForTimeout 500)) (\<lambda>_. ret True))))
                (\<lambda>_. ret False))
       (\<lambda>stop. if stop then ret () else clickCookieButton orc rest)"

definition dismissCookieBanners :: "answers \<Rightarrow> unit prog" where
  "dismissCookieBanners orc =
     andThen (ext orc (WaitForTimeout 2000)) (\<lambda>_.
     andThen (ignoreErrors (ext orc (Evaluate ''removeOverlays'' []))) (\<lambda>_.
     andThen (clickCookieButton orc cookieButtonSelectors) (\<lambda>_.
     ignoreErrors (ext orc (Evaluate ''removeRemainingOverlays'' [])))))"

subsection \<open>Login\<close>

definition usernameSelectors :: "string list" where
  \<open>usernameSelectors =
     [''input[name="username"]'', ''input[id="username"]'', ''input[type="email"]'',
      ''input[name="email"]'', ''#email'', ''input[id*="email"]'',
      ''input[placeholder*="email" i]'', ''input[placeholder*="username" i]'']\<close>

definition passwordSelectors :: "string list" where
  \<open>passwordSelectors =
     [''input[type="password"]'', ''input[name="password"]'', ''#password'',
      ''input[id*="password"]'']\<close>

definition continueSelector :: string where
  \<open>continueSelector =
     ''button[type="submit"], button:has-text("Continue"), button:has-text("Next"), input[type="submit"]''\<close>

definition loginSelector :: string where
  \<open>loginSelector =
     ''button[type="submit"], input[type="submit"], button:has-text("Log In"), button:has-text("Sign In"), button:has-text("Continue")''\<close>

text \<open>
  The two loops of \<open>login\<close> over a list of selectors: the first selector for which
  \<open>waitForSelector\<close> returns an element; a timeout (thrown) goes on to the next one.
\<close>

fun waitForFirst :: "answers \<Rightarrow> string list \<Rightarrow> nat \<Rightarrow> string option prog" where
  "waitForFirst orc [] timeout = ret None"
| "waitForFirst orc (selector # rest) timeout =
     andThen (tryCatch (ext orc (WaitForSelector selector timeout)) (\<lambda>_. ret None)) (\<lambda>field.
       if field \<noteq> None then ret field else waitForFirst orc rest timeout)"

text \<open>A screenshot under a name stamped with \<open>Date.now()\<close>; returns the path.\<close>

definition screenshotAs :: "answers \<Rightarrow> string \<Rightarrow> string prog" where
  "screenshotAs orc name =
     andThen (reads (\<lambda>w. now (clk w))) (\<lambda>t.
     andThen (ext orc (Screenshot (SCREENSHOT_DIR @ ''/'' @ name @ String_of t @ ''.png''))) (\<lambda>_.
     ret (SCREENSHOT_DIR @ ''/'' @ name @ String_of t @ ''.png'')))"

definition login :: "answers \<Rightarrow> bool prog" where
  "login orc =
     andThen (ensureBrowser orc) (\<lambda>_.
     andThen (ext orc (Goto UPS_LOGIN_URL)) (\<lambda>_.
     andThen (ext orc (WaitForTimeout 5000)) (\<lambda>_.
     andThen (dismissCookieBanners orc) (\<lambda>_.
     andThen (screenshotAs orc ''ups-login-page-'') (\<lambda>_.
     andThen (waitForFirst orc usernameSelectors 10000) (\<lambda>usernameField.
     case usernameField of
       None \<Rightarrow>
         andThen (screenshotAs orc ''ups-login-error-no-username-'') (\<lambda>errorScreenshot.
         raise (''Could not find username field. See screenshot: '' @ errorScreenshot))
     | Some u \<Rightarrow>
     andThen (reads (\<lambda>w. username (config w))) (\<lambda>name.
     andThen (ext orc (Fill u name)) (\<lambda>_.
     andThen (ext orc (Query continueSelector)) (\<lambda>continueButton.
     andThen (case continueButton of
                None \<Rightarrow> ret ()
              | Some b \<Rightarrow> andThen (ext orc (Click b)) (\<lambda>_.
                         andThen (ext orc (WaitForTimeout 2000)) (\<lambda>_.
                         dismissCookieBanners orc))) (\<lambda>_.
     andThen (waitForFirst orc passwordSelectors 15000) (\<lambda>passwordField.
     case passwordField of
       None \<Rightarrow>
         andThen (screenshotAs orc ''ups-login-error-no-password-'') (\<lambda>errorScreenshot.
         raise (''Could not find password field. See screenshot: '' @ errorScreenshot))
     | Some p \<Rightarrow>
     andThen (reads (\<lambda>w. password (config w))) (\<lambda>secret.
     andThen (ext orc (Fill p secret)) (\<lambda>_.
     andThen (ext orc (Query loginSelector)) (\<lambda>loginButton.
     andThen (case loginButton of
                None \<Rightarrow> ret ()
              | Some b \<Rightarrow> void (ext orc (Click b))) (\<lambda>_.
     andThen (tryCatch (void (ext orc WaitForLogin))
                (\<lambda>_. andThen (screenshotAs orc ''ups-login-error-'') (\<lambda>errorScreenshot.
                      raise (''Login failed. See screenshot: '' @ errorScreenshot)))) (\<lambda>_.
     andThen (updateSession orc (\<lambda>s. s\<lparr>loggedIn := True\<rparr>)) (\<lambda>_.
     ret True)))))))))))))))))"


subsection \<open>Element resolution\<close>

text \<open>\<open>label.toLowerCase().replace(/\s+/g, '')\<close> on ASCII text.\<close>

definition toLowerCase :: "string \<Rightarrow> string" where
  "toLowerCase s = map (\<lambda>c. if 65 \<le> (of_char c :: nat) \<and> (of_char c :: nat) \<le> 90
                              then char_of (of_char c + (32::nat)) else c) s"

definition stripSpaces :: "string \<Rightarrow> string" where
  "stripSpaces s = filter (\<lambda>c. c \<notin> set [CHR '' '', CHR 0x09, CHR 0x0A, CHR 0x0B, CHR 0x0C, CHR 0x0D]) s"

definition ariaSelector :: "string \<Rightarrow> string" where
  \<open>ariaSelector label =
     ''input[aria-label*="'' @ label @ ''" i], textarea[aria-label*="'' @ label @ ''" i]''\<close>

definition placeholderSelector :: "string \<Rightarrow> string" where
  \<open>placeholderSelector label =
     ''input[placeholder*="'' @ label @ ''" i], textarea[placeholder*="'' @ label @ ''" i]''\<close>

definition labelSelector :: "string \<Rightarrow> string" where
  \<open>labelSelector label = ''label:has-text("'' @ label @ ''")''\<close>

definition nameSelector :: "string \<Rightarrow> string" where
  \<open>nameSelector label =
     ''input[name*="'' @ stripSpaces (toLowerCase label) @ ''" i], textarea[name*="''
       @ stripSpaces (toLowerCase label) @ ''" i]''\<close>

definition siblingSelector :: string where
  "siblingSelector =
     ''xpath=following-sibling::input | following-sibling::textarea | ../input | ../textarea''"

text \<open>
  What a function declared \<open>Promise<void>\<close> resolves to. \<open>fillField\<close> and \<open>selectOption\<close>
  return \<open>undefined\<close> at every \<open>return\<close> and at the end of the loop.
\<close>

datatype jsvalue = Undefined | Boolean bool

text \<open>
  One pass of the loop of \<open>fillField\<close> (the body of its \<open>try\<close>) for one label variant:
  \<open>True\<close> when a field was found and filled, which is where the source returns.
\<close>

definition fillQueried :: "answers \<Rightarrow> string option \<Rightarrow> string \<Rightarrow> bool prog" where
  "fillQueried orc field v =
     (case field of None \<Rightarrow> ret False
      | Some f \<Rightarrow> andThen (ext orc (Fill f v)) (\<lambda>_. ret True))"

definition fillVariant :: "answers \<Rightarrow> string \<Rightarrow> string \<Rightarrow> bool prog" where
  "fillVariant orc label v =
     andThen (ext orc (Query (ariaSelector label))) (\<lambda>field.
     andThen (fillQueried orc field v) (\<lambda>filled.
     if filled then ret True else
     andThen (ext orc (Query (placeholderSelector label))) (\<lambda>field.
     andThen (fillQueried orc field v) (\<lambda>filled.
     if filled then ret True else
     andThen (ext orc (Query (labelSelector label))) (\<lambda>labelEl.
     andThen (case labelEl of
                None \<Rightarrow> ret False
              | Some l \<Rightarrow>
                  andThen (ext orc (GetAttribute l ''for'')) (\<lambda>forAttr.
                  andThen (if truthy forAttr then
                             andThen (ext orc (Query (''#'' @ the forAttr))) (\<lambda>field.
                             fillQueried orc field v)
                           else ret False) (\<lambda>filled.
                  if filled then ret True else
                  andThen (ext orc (QueryFrom l siblingSelector)) (\<lambda>field.
                  fillQueried orc field v)))) (\<lambda>filled.
     if filled then ret True else
     andThen (ext orc (Query (nameSelector label))) (\<lambda>field.
     fillQueried orc field v)))))))"

fun fillField :: "answers \<Rightarrow> string list \<Rightarrow> string \<Rightarrow> jsvalue prog" where
  "fillField orc [] v = ret Undefined"
| "fillField orc (label # rest) v =
     andThen (tryCatch (fillVariant orc label v) (\<lambda>_. ret False)) (\<lambda>filled.
       if filled then ret Undefined else fillField orc rest v)"

definition selectSelector :: "string \<Rightarrow> string" where
  \<open>selectSelector label =
     ''select[aria-label*="'' @ label @ ''" i], select[name*="''
       @ stripSpaces (toLowerCase label) @ ''" i]''\<close>

definition radioSelector :: "string \<Rightarrow> string" where
  \<open>radioSelector v =
     ''input[type="radio"][value*="'' @ v @ ''" i], label:has-text("'' @ v
       @ ''") input[type="radio"]''\<close>

definition selectVariant :: "answers \<Rightarrow> string \<Rightarrow> string \<Rightarrow> bool prog" where
  "selectVariant orc label v =
     andThen (ext orc (Query (selectSelector label))) (\<lambda>select.
     case select of
       Some s \<Rightarrow> andThen (ext orc (SelectOption s v)) (\<lambda>_. ret True)
     | None \<Rightarrow>
         andThen (ext orc (Query (radioSelector v))) (\<lambda>radio.
         case radio of
           Some r \<Rightarrow> andThen (ext orc (Click r)) (\<lambda>_. ret True)
         | None \<Rightarrow> ret False))"

fun selectOption :: "answers \<Rightarrow> string list \<Rightarrow> string \<Rightarrow> jsvalue prog" where
  "selectOption orc [] v = ret Undefined"
| "selectOption orc (label # rest) v =
     andThen (tryCatch (selectVariant orc label v) (\<lambda>_. ret False)) (\<lambda>selected.
       if selected then ret Undefined else selectOption orc rest v)"

subsection \<open>Filling the form\<close>

text \<open>
  The smart defaults of \<open>fillForm\<close> (\<open>options.x || default\<close>) and the special instructions,
  gathered in the \<open>FormState\<close> that \<open>fillForm\<close> returns: the same constants fill the form.
\<close>

definition buildSpecialInstructions :: "FillFormOptions \<Rightarrow> string option" where
  "buildSpecialInstructions options =
     (if \<not> truthy (specialInstructions options) \<and> truthy (doorCode options)
      then Some (''Door code * '' @ the (doorCode options) @ '' #'')
      else specialInstructions options)"

definition formStateOf :: "clock \<Rightarrow> FillFormOptions \<Rightarrow> FormState" where
  "formStateOf c options =
     \<lparr>fs_date = (if truthy (date options) then the (date options) else getSmartDate c),
      fs_packages = (if truthy_num (packages options) then the (packages options) else 1),
      fs_weight = (if truthy_num (weight options) then the (weight options) else 10),
      fs_earliestTime = (if truthy (earliestTime options) then the (earliestTime options)
                         else getSmartEarliestTime c),
      fs_latestTime = (if truthy (latestTime options) then the (latestTime options)
                       else ''18:00''),
      fs_specialInstructions = buildSpecialInstructions options,
      fs_company = company DEFAULTS,
      fs_address = address DEFAULTS,
      fs_city = city DEFAULTS,
      fs_postalCode = postalCode DEFAULTS\<rparr>"

definition differentAddressSelectors :: "string list" where
  \<open>differentAddressSelectors =
     [''input[type="radio"][value="NEW"]'', ''input[type="radio"][id*="different"]'',
      ''input[type="radio"][id*="new"]'',
      ''label:has-text("different collection address") input[type="radio"]'',
      ''label:has-text("A different collection") input[type="radio"]'']\<close>

text \<open>
  The loop over the radio selectors, with the flag \<open>radioClicked\<close>: it is set once the
  click went through, and stays set when the wait after it throws and the loop goes on.
\<close>

fun clickRadio :: "answers \<Rightarrow> string list \<Rightarrow> bool \<Rightarrow> bool prog" where
  "clickRadio orc [] radioClicked = ret radioClicked"
| "clickRadio orc (selector # rest) radioClicked =
     andThen (tryCatch
                (andThen (ext orc (Query selector)) (\<lambda>radio.
                   case radio of
                     None \<Rightarrow> ret (radioClicked, False)
                   | Some r \<Rightarrow>
                       andThen (ext orc (Click r)) (\<lambda>_.
                       tryCatch (andThen (ext orc (WaitForTimeout 1000)) (\<lambda>_. ret (True, True)))
                         (\<lambda>_. ret (True, False)))))
                (\<lambda>_. ret (radioClicked, False)))
       (\<lambda>(clicked, stop). if stop then ret clicked else clickRadio orc rest clicked)"

definition chooseDifferentAddress :: "answers \<Rightarrow> unit prog" where
  "chooseDifferentAddress orc =
     andThen (clickRadio orc differentAddressSelectors False) (\<lambda>radioClicked.
     if \<not> radioClicked then
       andThen (ext orc (Evaluate ''clickDifferentCollectionRadio'' [])) (\<lambda>_.
       void (ext orc (WaitForTimeout 1000)))
     else ret ())"

definition fillSpecialInstructions :: "answers \<Rightarrow> string option \<Rightarrow> unit prog" where
  "fillSpecialInstructions orc instructions =
     (if truthy instructions then
        void (fillField orc [''Special Instructions'', ''Instructions'', ''Notes''] (the instructions))
      else ret ())"

text \<open>The fields of the form, from the company name to the notification email.\<close>

definition fillFormFields :: "answers \<Rightarrow> FormState \<Rightarrow> unit prog" where
  "fillFormFields orc st =
     andThen (fillField orc [''Company'', ''Company Name'', ''company''] (company DEFAULTS)) (\<lambda>_.
     andThen (fillField orc [''Address Line 1'', ''Address'', ''Street Address'', ''addressLine1'']
                (address DEFAULTS)) (\<lambda>_.
     andThen (fillField orc [''City'', ''Town'', ''city''] (city DEFAULTS)) (\<lambda>_.
     andThen (fillField orc [''Postal Code'', ''Postcode'', ''ZIP'', ''postalCode'']
                (postalCode DEFAULTS)) (\<lambda>_.
     andThen (fillField orc [''Telephone'', ''Phone'', ''Contact Number'', ''telephone'']
                (telephone DEFAULTS)) (\<lambda>_.
     andThen (fillField orc [''Package'', ''Packages'', ''Number of Packages'']
                (String_of (fs_packages st))) (\<lambda>_.
     andThen (fillField orc [''Weight'', ''Total Weight''] (String_of (fs_weight st))) (\<lambda>_.
     andThen (fillSpecialInstructions orc (fs_specialInstructions st)) (\<lambda>_.
     andThen (selectOption orc
                [''Preferred Collection Location'', ''Collect From'', ''Collection Location'']
                ''Front Door'') (\<lambda>_.
     void (fillField orc [''Email'', ''Notification Email'', ''email''] (email DEFAULTS)))))))))))"

text \<open>
  The date and time dropdowns are set by scripts run inside the page. The long en-GB
  rendering of the date and its day and month are computed from the date text; the log
  keeps the date text the scripts were given. The hour is \<open>earliestTime.split(':')[0]\<close>.
\<close>

definition selectDateAndTime :: "answers \<Rightarrow> FormState \<Rightarrow> unit prog" where
  "selectDateAndTime orc st =
     andThen (ext orc (Evaluate ''selectDateByText'' (fs_date st))) (\<lambda>_.
     andThen (ext orc (Evaluate ''selectDateByDayAndMonth'' (fs_date st))) (\<lambda>_.
     andThen (ext orc (WaitForTimeout 500)) (\<lambda>_.
     if fs_earliestTime st \<noteq> [] then
       void (ext orc (Evaluate ''selectEarliestHour''
               (takeWhile (\<lambda>c. c \<noteq> CHR '':'') (fs_earliestTime st))))
     else ret ())))"

definition fillForm :: "answers \<Rightarrow> FillFormOptions \<Rightarrow> result prog" where
  "fillForm orc options =
     andThen (ensureBrowser orc) (\<lambda>_.
     andThen (login orc) (\<lambda>_.
     andThen (ext orc (Goto UPS_FORM_URL)) (\<lambda>_.
     andThen (dismissCookieBanners orc) (\<lambda>_.
     andThen (ext orc (WaitForTimeout 3000)) (\<lambda>_.
     andThen (reads (\<lambda>w. formStateOf (clk w) options)) (\<lambda>st.
     andThen (screenshotAs orc ''ups-form-initial-'') (\<lambda>_.
     andThen (tryCatch
                (andThen (chooseDifferentAddress orc) (\<lambda>_.
                 andThen (fillFormFields orc st) (\<lambda>_.
                 andThen (selectDateAndTime orc st) (\<lambda>_.
                 ret None))))
                (\<lambda>formError.
                 andThen (screenshotAs orc ''ups-form-error-'') (\<lambda>errorScreenshot.
                 ret (Some (no_result\<lparr>error := True,
                        message := ''Form fill error: '' @ formError,
                        screenshot := Some errorScreenshot\<rparr>))))) (\<lambda>failed.
     case failed of
       Some r \<Rightarrow> ret r
     | None \<Rightarrow>
         andThen (screenshotAs orc ''ups-form-preview-'') (\<lambda>previewScreenshot.
         andThen (updateSession orc (\<lambda>s. s\<lparr>formFilled := True\<rparr>)) (\<lambda>_.
         ret (no_result\<lparr>success := True,
                screenshot := Some previewScreenshot,
                formState := Some st,
                message := ''Form filled successfully. Please review the screenshot before calling submit.''\<rparr>)))))))))))"


subsection \<open>Submitting\<close>

definition extractConfirmation :: "answers \<Rightarrow> confirmation prog" where
  "extractConfirmation orc =
     tryCatch
       (andThen (ext orc (Evaluate ''extractConfirmation'' [])) (\<lambda>found.
        ret (Extracted (case found of None \<Rightarrow> [] | Some text \<Rightarrow> text))))
       (\<lambda>_. ret (PageTextOnly ''Unable to extract confirmation details''))"

definition nextSelector :: string where
  \<open>nextSelector =
     ''button:has-text("Next"), button:has-text("Continue"), button:has-text("Review"), button[type="submit"]''\<close>

definition submitSelector :: string where
  \<open>submitSelector =
     ''button:has-text("Submit"), button:has-text("Confirm"), button:has-text("Schedule"), button[type="submit"]''\<close>

text \<open>Click a button if it was found, then wait for the network and a fixed time.\<close>

definition clickAndSettle :: "answers \<Rightarrow> string option \<Rightarrow> nat \<Rightarrow> unit prog" where
  "clickAndSettle orc button ms =
     (case button of
        None \<Rightarrow> ret ()
      | Some b \<Rightarrow> andThen (ext orc (Click b)) (\<lambda>_.
                 andThen (ext orc (WaitForLoadState ''networkidle'')) (\<lambda>_.
                 void (ext orc (WaitForTimeout ms)))))"

text \<open>The check at the head of \<open>submit\<close>: whether the saved session says the form is not filled.\<close>

definition notFilled :: "answers \<Rightarrow> bool prog" where
  "notFilled orc =
     ifW (existsSync SESSION_PATH)
       (andThen (readFileSync orc SESSION_PATH) (\<lambda>raw.
        andThen (JSON_parse raw) (\<lambda>session.
        ret (\<not> formFilled session))))
       (ret False)"

definition notFilledError :: result where
  "notFilledError =
     no_result\<lparr>error := True, message := ''Form has not been filled yet. Call fill-form first.''\<rparr>"

definition submit :: "answers \<Rightarrow> result prog" where
  "submit orc =
     andThen (ensureBrowser orc) (\<lambda>_.
     andThen (notFilled orc) (\<lambda>stop.
     if stop then ret notFilledError else
     tryCatch
       (andThen (ext orc (Query nextSelector)) (\<lambda>nextButton.
        andThen (clickAndSettle orc nextButton 2000) (\<lambda>_.
        andThen (screenshotAs orc ''ups-review-'') (\<lambda>review.
        andThen (ext orc (Query submitSelector)) (\<lambda>submitButton.
        andThen (clickAndSettle orc submitButton 3000) (\<lambda>_.
        andThen (screenshotAs orc ''ups-confirmation-'') (\<lambda>confirmationShot.
        andThen (extractConfirmation orc) (\<lambda>details.
        ret (no_result\<lparr>success := True,
               screenshot := Some confirmationShot,
               reviewScreenshot := Some review,
               confirmation := Some details,
               message := ''Collection submitted successfully.''\<rparr>)))))))))
       (\<lambda>err.
        andThen (screenshotAs orc ''ups-submit-error-'') (\<lambda>errorShot.
        ret (no_result\<lparr>error := True,
               message := ''Submit failed: '' @ err,
               screenshot := Some errorShot\<rparr>)))))"

subsection \<open>Reset and one-step booking\<close>

definition resetDone :: result where
  "resetDone = no_result\<lparr>success := True, message := ''Browser session closed and cleared.''\<rparr>"

definition reset :: "answers \<Rightarrow> result prog" where
  "reset orc =
     tryCatch
       (andThen (whenW (\<lambda>w. browser w \<noteq> None)
                   (andThen (ext orc CloseBrowser) (\<lambda>_.
                    modify (\<lambda>w. w\<lparr>browser := None, ctx := None, page := None\<rparr>)))) (\<lambda>_.
        andThen (whenW (existsSync SESSION_PATH) (unlinkSync orc SESSION_PATH)) (\<lambda>_.
        ret resetDone)))
       (\<lambda>err. ret (no_result\<lparr>error := True, message := ''Reset failed: '' @ err\<rparr>))"

definition nextSelectors :: "string list" where
  \<open>nextSelectors =
     [''button.ups-cta_primary:has-text("Next")'', ''button[class*="primary"]:has-text("Next")'',
      ''button:has-text("Next"):visible'', ''#btnNext'', ''button:has-text("Next")'']\<close>

definition submitSelectors :: "string list" where
  \<open>submitSelectors =
     [''button.ups-cta_primary:has-text("Schedule")'',
      ''button[class*="primary"]:has-text("Schedule")'', ''button:has-text("Schedule Pickup")'',
      ''button:has-text("Submit")'', ''button:has-text("Confirm")'', ''#btnSubmit'']\<close>

text \<open>The two loops of \<open>book\<close> that click the first visible button; returns \<open>clicked\<close>.\<close>

fun clickVisible :: "answers \<Rightarrow> string list \<Rightarrow> bool prog" where
  "clickVisible orc [] = ret False"
| "clickVisible orc (selector # rest) =
     andThen (tryCatch
                (andThen (ext orc (Query selector)) (\<lambda>button.
                   case button of
                     None \<Rightarrow> ret False
                   | Some b \<Rightarrow>
                       andThen (ext orc (IsVisible b)) (\<lambda>isVisible.
                       if isVisible \<noteq> None then
                         andThen (ext orc (ScrollIntoView b)) (\<lambda>_.
                         andThen (ext orc (Click b)) (\<lambda>_. ret True))
                       else ret False)))
                (\<lambda>_. ret False))
       (\<lambda>clicked. if clicked then ret True else clickVisible orc rest)"

definition clickOrScript :: "answers \<Rightarrow> string list \<Rightarrow> string \<Rightarrow> unit prog" where
  "clickOrScript orc selectors script =
     andThen (clickVisible orc selectors) (\<lambda>clicked.
     if \<not> clicked then void (ext orc (Evaluate script [])) else ret ())"

definition book :: "answers \<Rightarrow> FillFormOptions \<Rightarrow> result prog" where
  "book orc options =
     andThen (fillForm orc options) (\<lambda>fillResult.
     if error fillResult then ret fillResult else
     andThen (whenW (\<lambda>w. page w \<noteq> None) (void (ext orc (WaitForTimeout 2000)))) (\<lambda>_.
     andThen (reads page) (\<lambda>p.
     if p = None then
       ret (no_result\<lparr>error := True, message := ''Browser page not available after fill''\<rparr>)
     else
     tryCatch
       (andThen (dismissCookieBanners orc) (\<lambda>_.
        andThen (ext orc (Evaluate ''scrollToBottom'' [])) (\<lambda>_.
        andThen (ext orc (WaitForTimeout 1000)) (\<lambda>_.
        andThen (clickOrScript orc nextSelectors ''clickVisibleNextButton'') (\<lambda>_.
        andThen (ext orc (WaitForLoadState ''domcontentloaded'')) (\<lambda>_.
        andThen (ext orc (WaitForTimeout 3000)) (\<lambda>_.
        andThen (dismissCookieBanners orc) (\<lambda>_.
        andThen (screenshotAs orc ''ups-review-'') (\<lambda>review.
        andThen (ext orc (Evaluate ''scrollToBottom'' [])) (\<lambda>_.
        andThen (ext orc (WaitForTimeout 500)) (\<lambda>_.
        andThen (clickOrScript orc submitSelectors ''clickVisibleSubmitButton'') (\<lambda>_.
        andThen (ext orc (WaitForLoadState ''domcontentloaded'')) (\<lambda>_.
        andThen (ext orc (WaitForTimeout 5000)) (\<lambda>_.
        andThen (screenshotAs orc ''ups-confirmation-'') (\<lambda>confirmationShot.
        andThen (extractConfirmation orc) (\<lambda>details.
        andThen (reset orc) (\<lambda>_.
        ret (no_result\<lparr>success := True,
               fillScreenshot := screenshot fillResult,
               reviewScreenshot := Some review,
               confirmationScreenshot := Some confirmationShot,
               formState := formState fillResult,
               confirmation := Some details,
               message := ''Collection booked successfully.''\<rparr>))))))))))))))))))
       (\<lambda>err.
        andThen (screenshotAs orc ''ups-book-error-'') (\<lambda>errorShot.
        ret (no_result\<lparr>error := True,
               message := ''Booking failed during submit: '' @ err,
               fillScreenshot := screenshot fillResult,
               errorScreenshot := Some errorShot\<rparr>))))))"

subsection \<open>Properties of programs\<close>

text \<open>
  \<open>triple P m Q\<close>: from a world where \<open>P\<close> holds, what \<open>m\<close> returns and the world it leaves
  satisfy \<open>Q\<close>. \<open>nothrow m\<close>: \<open>m\<close> never throws. \<open>steps G m\<close>: \<open>m\<close> takes every world to one
  related to it by \<open>G\<close>, whether it returns or throws.
\<close>

definition triple :: "(world \<Rightarrow> bool) \<Rightarrow> 'a prog \<Rightarrow> ('a \<Rightarrow> world \<Rightarrow> bool) \<Rightarrow> bool" where
  "triple P m Q = (\<forall>w x w'. P w \<longrightarrow> m w = (Inr x, w') \<longrightarrow> Q x w')"

definition nothrow :: "'a prog \<Rightarrow> bool" where
  "nothrow m = (\<forall>w. \<exists>x w'. m w = (Inr x, w'))"

definition steps :: "(world \<Rightarrow> world \<Rightarrow> bool) \<Rightarrow> 'a prog \<Rightarrow> bool" where
  "steps G m = (\<forall>w. G w (snd (m w)))"

text \<open>
  The log grows, by calls that satisfy \<open>P\<close> only; the page, once there, stays; the clock
  and the configuration are not touched.
\<close>

definition moves :: "(call \<Rightarrow> bool) \<Rightarrow> world \<Rightarrow> world \<Rightarrow> bool" where
  "moves P w w' =
     ((\<exists>cs. trace w' = trace w @ cs \<and> list_all P cs) \<and>
      (page w \<noteq> None \<longrightarrow> page w' \<noteq> None) \<and> clk w' = clk w \<and> config w' = config w)"

definition anyCall :: "call \<Rightarrow> bool" where
  "anyCall c = True"

definition offPage :: "call \<Rightarrow> bool" where
  "offPage c = (\<not> page_call c)"

text \<open>
  \<open>succeeds P m Q\<close>: from a world where \<open>P\<close> holds, \<open>m\<close> returns, and \<open>Q\<close> holds of the value
  and the world it leaves. \<open>throws P m E\<close>: from such a world \<open>m\<close> throws. \<open>stable P\<close>: \<open>P\<close>
  does not depend on the log.
\<close>

definition succeeds :: "(world \<Rightarrow> bool) \<Rightarrow> 'a prog \<Rightarrow> ('a \<Rightarrow> world \<Rightarrow> bool) \<Rightarrow> bool" where
  "succeeds P m Q = (\<forall>w. P w \<longrightarrow> (\<exists>x w'. m w = (Inr x, w') \<and> Q x w'))"

definition throws :: "(world \<Rightarrow> bool) \<Rightarrow> 'a prog \<Rightarrow> (string \<Rightarrow> world \<Rightarrow> bool) \<Rightarrow> bool" where
  "throws P m E = (\<forall>w. P w \<longrightarrow> (\<exists>e w'. m w = (Inl e, w') \<and> E e w'))"

definition stable :: "(world \<Rightarrow> bool) \<Rightarrow> bool" where
  "stable P = (\<forall>w t. P w \<longrightarrow> P (w\<lparr>trace := t\<rparr>))"

text \<open>
  Answers of a page that cooperates: every call but \<open>waitForSelector\<close> returns a value.
  The awaited elements either all appear or never do. A settled world has its profile
  directory and a well-formed session descriptor.
\<close>

fun isWait :: "call \<Rightarrow> bool" where
  "isWait (WaitForSelector _ _) = True"
| "isWait _ = False"

definition obliging :: "answers \<Rightarrow> bool" where
  "obliging orc = (\<forall>n c. isWait c \<or> (\<exists>v. orc n c = Value v))"

definition appears :: "answers \<Rightarrow> bool" where
  "appears orc = (\<forall>n s t. \<exists>v. orc n (WaitForSelector s t) = Value v)"

definition neverAppears :: "answers \<Rightarrow> bool" where
  "neverAppears orc = (\<forall>n s t. \<exists>e. orc n (WaitForSelector s t) = Throws e)"

definition settled :: "world \<Rightarrow> bool" where
  "settled w = (files w USER_DATA_DIR \<noteq> None \<and> (\<exists>s. files w SESSION_PATH = Some (Json s)))"



text \<open>\<open>starts c m\<close>: the first thing \<open>m\<close> does, in any world, is the call \<open>c\<close>.\<close>

definition starts :: "call \<Rightarrow> 'a prog \<Rightarrow> bool" where
  "starts c m = (\<forall>w. \<exists>cs. trace (snd (m w)) = trace w @ c # cs)"

text \<open>The calls that type into a field.\<close>

fun isFill :: "call \<Rightarrow> bool" where
  "isFill (Fill _ _) = True"
| "isFill _ = False"

text \<open>The calls a program adds to the log of a world.\<close>

definition calls :: "'a prog \<Rightarrow> world \<Rightarrow> call list" where
  "calls m w = drop (length (trace w)) (trace (snd (m w)))"

text \<open>What \<open>fillForm\<close> returns: an error with a screenshot, or the resolved form state.\<close>

definition fillOutcome :: "clock \<Rightarrow> FillFormOptions \<Rightarrow> result \<Rightarrow> bool" where
  "fillOutcome c options r =
     (screenshot r \<noteq> None \<and>
      (if error r then \<not> success r \<and> formState r = None
       else success r \<and> formState r = Some (formStateOf c options)))"

subsection \<open>The London wall clock\<close>

text \<open>
  The claims about the smart defaults speak of the Europe/London wall clock at the moment
  of the call: its hour, its calendar day (as a day number) and the day of the week.
\<close>

definition londonHour :: "clock \<Rightarrow> int" where
  "londonHour c = ((now c + london c * msPerMinute) div msPerHour) mod 24"

definition londonDay :: "clock \<Rightarrow> int" where
  "londonDay c = (now c + london c * msPerMinute) div msPerDay"

definition weekday :: "int \<Rightarrow> int" where
  "weekday z = (z + 4) mod 7"

text \<open>The first weekday from a day on: a Saturday moves two days, a Sunday one.\<close>

definition nextWeekday :: "int \<Rightarrow> int" where
  "nextWeekday z = (if weekday z = 6 then z + 2 else if weekday z = 0 then z + 1 else z)"

text \<open>
  The date the claim describes: today before 13:00 London time, tomorrow from 13:00 on,
  then moved past the weekend.
\<close>

definition smartDay :: "clock \<Rightarrow> int" where
  "smartDay c = nextWeekday (if londonHour c \<ge> 13 then londonDay c + 1 else londonDay c)"

subsection \<open>Concrete clocks\<close>

text \<open>
  Friday 4 July 2025, 14:00 in London (summer time), process in UTC;
  Tuesday 1 July 2025, 09:15 in London, process five hours west of UTC;
  Friday 10 January 2025, 18:00 in London (winter time), process one hour east of UTC;
  Monday 30 June 2025, 00:30 in London (summer time), process in the London time zone.
\<close>

definition friday14 :: clock where
  "friday14 = \<lparr>now = 1751634000000, london = 60, zone = 0\<rparr>"

definition tuesday09 :: clock where
  "tuesday09 = \<lparr>now = 1751357700000, london = 60, zone = -300\<rparr>"

definition friday18 :: clock where
  "friday18 = \<lparr>now = 1736532000000, london = 0, zone = 60\<rparr>"

definition mondayAfterMidnight :: clock where
  "mondayAfterMidnight = \<lparr>now = 1751239800000, london = 60, zone = 60\<rparr>"

subsection \<open>Concrete worlds and answers\<close>

text \<open>
  A machine with the profile directory and a session descriptor left by an earlier
  process, in which the form was never filled; no browser is attached yet.
\<close>

definition staleSession :: SessionInfo where
  "staleSession =
     \<lparr>wsEndpoint = ''ws://127.0.0.1:9222/devtools/browser/1'',
      createdAt = ''2025-06-29T20:00:00.000Z'', formFilled = False, loggedIn = False\<rparr>"

definition operator :: Config where
  "operator = \<lparr>username = ''ops'', password = ''secret''\<rparr>"

definition staleWorld :: world where
  "staleWorld =
     \<lparr>files = [USER_DATA_DIR \<mapsto> Directory, SESSION_PATH \<mapsto> Json staleSession],
      config = operator, browser = None, ctx = None, page = None,
      clk = mondayAfterMidnight, trace = []\<rparr>"

text \<open>The same machine with no session descriptor and no browser.\<close>

definition idleWorld :: world where
  "idleWorld =
     \<lparr>files = [USER_DATA_DIR \<mapsto> Directory],
      config = operator, browser = None, ctx = None, page = None,
      clk = mondayAfterMidnight, trace = []\<rparr>"

text \<open>
  The browser of the descriptor is gone: connecting to it is refused. A launched browser
  has no \<open>wsEndpoint\<close> method, its blank page holds no element, no call throws.
\<close>

definition browserGone :: answers where
  "browserGone n c =
     (case c of ConnectOverCDP _ \<Rightarrow> Throws ''connect ECONNREFUSED'' | _ \<Rightarrow> Nothing)"


text \<open>A page on which no query finds anything, and one on which every query finds an element.\<close>

definition nothingFound :: answers where
  "nothingFound n c = Nothing"

definition everythingFound :: answers where
  "everythingFound n c = Value ''element''"

text \<open>
  A session that is already signed in: the browser of the descriptor is alive, and the
  login address leads past the login form, so that no username field ever appears.
\<close>

definition signedIn :: answers where
  "signedIn n c =
     (case c of
        WaitForSelector _ _ \<Rightarrow> Throws ''Timeout exceeded''
      | _ \<Rightarrow> Value ''element'')"

definition signedInWorld :: world where
  "signedInWorld =
     staleWorld\<lparr>files := [USER_DATA_DIR \<mapsto> Directory,
                           SESSION_PATH \<mapsto> Json (staleSession\<lparr>loggedIn := True\<rparr>)]\<rparr>"

definition someOptions :: FillFormOptions where
  "someOptions =
     \<lparr>date = None, packages = Some 0, weight = Some 0, earliestTime = None,
      latestTime = None, doorCode = Some ''123456789'', specialInstructions = None\<rparr>"

text \<open>The machine after a successful \<open>fillForm\<close> of an earlier process.\<close>

definition filledWorld :: world where
  "filledWorld =
     staleWorld\<lparr>files := [USER_DATA_DIR \<mapsto> Directory,
                           SESSION_PATH \<mapsto> Json (staleSession\<lparr>loggedIn := True, formFilled := True\<rparr>)]\<rparr>"




section \<open>Rules for programs\<close>

lemma andThen_Inr:
  "m w = (Inr x, w1) \<Longrightarrow> andThen m f w = f x w1"
  by (simp add: andThen_def)

lemma andThen_Inl:
  "m w = (Inl e, w1) \<Longrightarrow> andThen m f w = (Inl e, w1)"
  by (simp add: andThen_def)

lemma andThen_InrE:
  assumes "andThen m f w = (Inr y, w')"
  obtains x w1 where "m w = (Inr x, w1)" and "f x w1 = (Inr y, w')"
  using assms by (auto simp: andThen_def split: prod.splits sum.splits)

lemma tryCatch_Inr:
  "m w = (Inr x, w1) \<Longrightarrow> tryCatch m h w = (Inr x, w1)"
  by (simp add: tryCatch_def)

lemma tryCatch_Inl:
  "m w = (Inl e, w1) \<Longrightarrow> tryCatch m h w = h e w1"
  by (simp add: tryCatch_def)

subsection \<open>What a program returns\<close>

lemma triple_ret: "(\<And>w. P w \<Longrightarrow> Q x w) \<Longrightarrow> triple P (ret x) Q"
  by (simp add: triple_def ret_def)

lemma triple_raise: "triple P (raise e) Q"
  by (simp add: triple_def raise_def)

lemma triple_andThen:
  "triple P m R \<Longrightarrow> (\<And>x. triple (R x) (f x) Q) \<Longrightarrow> triple P (andThen m f) Q"
  unfolding triple_def by (auto elim!: andThen_InrE)

lemma triple_any: "triple P m (\<lambda>_ _. True)"
  by (simp add: triple_def)

lemma triple_then:
  "(\<And>x. triple (\<lambda>_. True) (f x) Q) \<Longrightarrow> triple P (andThen m f) Q"
  unfolding triple_def by (auto elim!: andThen_InrE)

lemma triple_tryCatch:
  "triple P m Q \<Longrightarrow> (\<And>e. triple (\<lambda>_. True) (h e) Q) \<Longrightarrow> triple P (tryCatch m h) Q"
  unfolding triple_def tryCatch_def by (auto split: prod.splits sum.splits)

lemma triple_ifW:
  "triple P m1 Q \<Longrightarrow> triple P m2 Q \<Longrightarrow> triple P (ifW b m1 m2) Q"
  unfolding triple_def ifW_def by (auto split: if_splits)

lemma triple_weaken:
  "triple P' m Q' \<Longrightarrow> (\<And>w. P w \<Longrightarrow> P' w) \<Longrightarrow> (\<And>x w. Q' x w \<Longrightarrow> Q x w) \<Longrightarrow> triple P m Q"
  unfolding triple_def by blast

lemma triple_conj:
  "triple P m Q1 \<Longrightarrow> triple P m Q2 \<Longrightarrow> triple P m (\<lambda>x w. Q1 x w \<and> Q2 x w)"
  unfolding triple_def by blast

lemma tripleD: "triple P m Q \<Longrightarrow> P w \<Longrightarrow> m w = (Inr x, w') \<Longrightarrow> Q x w'"
  unfolding triple_def by blast

subsection \<open>Programs that never throw\<close>

lemma nothrow_ret: "nothrow (ret x)"
  by (simp add: nothrow_def ret_def)

lemma nothrow_reads: "nothrow (reads f)"
  by (simp add: nothrow_def reads_def)

lemma nothrow_modify: "nothrow (modify f)"
  by (simp add: nothrow_def modify_def)

lemma nothrow_andThen: "nothrow m \<Longrightarrow> (\<And>x. nothrow (f x)) \<Longrightarrow> nothrow (andThen m f)"
  unfolding nothrow_def andThen_def
  by (metis (mono_tags, lifting) old.prod.case old.sum.simps(6))

lemma nothrow_tryCatch:
  assumes "\<And>e. nothrow (h e)"
  shows "nothrow (tryCatch m h)"
  unfolding nothrow_def
proof
  fix w
  obtain r w1 where mw: "m w = (r, w1)" by (cases "m w")
  show "\<exists>x w'. tryCatch m h w = (Inr x, w')"
  proof (cases r)
    case (Inl e)
    from assms [of e] obtain x w' where "h e w1 = (Inr x, w')"
      unfolding nothrow_def by blast
    with mw Inl show ?thesis by (simp add: tryCatch_def)
  next
    case (Inr x)
    with mw show ?thesis by (simp add: tryCatch_def)
  qed
qed

lemma nothrow_ifW: "nothrow m1 \<Longrightarrow> nothrow m2 \<Longrightarrow> nothrow (ifW b m1 m2)"
  unfolding nothrow_def ifW_def by simp

lemma nothrowD: "nothrow m \<Longrightarrow> \<exists>x w'. m w = (Inr x, w')"
  unfolding nothrow_def by blast

subsection \<open>How a program moves the world\<close>

lemma moves_refl: "moves P w w"
  by (simp add: moves_def)

lemma moves_trans: "moves P a b \<Longrightarrow> moves P b c \<Longrightarrow> moves P a c"
  unfolding moves_def by auto

lemma moves_mono: "(\<And>c. P c \<Longrightarrow> Q c) \<Longrightarrow> moves P a b \<Longrightarrow> moves Q a b"
  unfolding moves_def by (auto simp: list_all_iff)

lemma steps_ret: "steps (moves P) (ret x)"
  by (simp add: steps_def ret_def moves_refl)

lemma steps_raise: "steps (moves P) (raise e)"
  by (simp add: steps_def raise_def moves_refl)

lemma steps_reads: "steps (moves P) (reads f)"
  by (simp add: steps_def reads_def moves_refl)

lemma steps_ext: "P c \<Longrightarrow> steps (moves P) (ext orc c)"
  by (simp add: steps_def ext_def moves_def Let_def split: answer.splits)

lemma steps_modify:
  "(\<And>w. trace (f w) = trace w \<and> (page w \<noteq> None \<longrightarrow> page (f w) \<noteq> None) \<and> clk (f w) = clk w
      \<and> config (f w) = config w)
   \<Longrightarrow> steps (moves P) (modify f)"
  by (simp add: steps_def modify_def moves_def)

lemma steps_andThen:
  assumes "steps (moves P) m" and "\<And>x. steps (moves P) (f x)"
  shows "steps (moves P) (andThen m f)"
  unfolding steps_def
proof
  fix w
  obtain r w1 where mw: "m w = (r, w1)" by (cases "m w")
  have g: "moves P w w1" using assms(1) mw by (metis steps_def snd_conv)
  show "moves P w (snd (andThen m f w))"
  proof (cases r)
    case (Inl e)
    with mw g show ?thesis by (simp add: andThen_def)
  next
    case (Inr x)
    have "moves P w1 (snd (f x w1))" using assms(2) by (simp add: steps_def)
    with mw Inr g show ?thesis by (auto simp: andThen_def intro: moves_trans)
  qed
qed

lemma steps_tryCatch:
  assumes "steps (moves P) m" and "\<And>e. steps (moves P) (h e)"
  shows "steps (moves P) (tryCatch m h)"
  unfolding steps_def
proof
  fix w
  obtain r w1 where mw: "m w = (r, w1)" by (cases "m w")
  have g: "moves P w w1" using assms(1) mw by (metis steps_def snd_conv)
  show "moves P w (snd (tryCatch m h w))"
  proof (cases r)
    case (Inl e)
    have "moves P w1 (snd (h e w1))" using assms(2) by (simp add: steps_def)
    with mw Inl g show ?thesis by (auto simp: tryCatch_def intro: moves_trans)
  next
    case (Inr x)
    with mw g show ?thesis by (simp add: tryCatch_def)
  qed
qed

lemma steps_ifW:
  "steps (moves P) m1 \<Longrightarrow> steps (moves P) m2 \<Longrightarrow> steps (moves P) (ifW b m1 m2)"
  unfolding steps_def ifW_def by simp

lemma steps_mono: "(\<And>c. P c \<Longrightarrow> Q c) \<Longrightarrow> steps (moves P) m \<Longrightarrow> steps (moves Q) m"
  unfolding steps_def using moves_mono by blast

lemma stepsD: "steps G m \<Longrightarrow> m w = (r, w') \<Longrightarrow> G w w'"
  unfolding steps_def by (metis snd_conv)

section \<open>The operations move the world forward\<close>

lemmas steps_rules =
  steps_ret steps_raise steps_reads steps_ext steps_modify steps_andThen steps_tryCatch steps_ifW

lemma steps_void: "steps (moves P) m \<Longrightarrow> steps (moves P) (void m)"
  by (simp add: void_def steps_andThen steps_ret)

lemma steps_ignoreErrors: "steps (moves P) m \<Longrightarrow> steps (moves P) (ignoreErrors m)"
  by (simp add: ignoreErrors_def steps_tryCatch steps_void steps_ret)

lemma steps_whenW: "steps (moves P) m \<Longrightarrow> steps (moves P) (whenW b m)"
  by (simp add: whenW_def steps_ifW steps_ret)

lemma steps_readFileSync: "P (ReadFile p) \<Longrightarrow> steps (moves P) (readFileSync orc p)"
  unfolding readFileSync_def
  by (auto intro!: steps_rules split: option.splits entry.splits)

lemma steps_writeFileSync: "P (WriteFile p) \<Longrightarrow> steps (moves P) (writeFileSync orc p e)"
  unfolding writeFileSync_def by (auto intro!: steps_rules)

lemma steps_unlinkSync: "P (Unlink p) \<Longrightarrow> steps (moves P) (unlinkSync orc p)"
  unfolding unlinkSync_def
  by (auto intro!: steps_rules split: option.splits entry.splits)

lemma steps_mkdirSync: "P (Mkdir p) \<Longrightarrow> steps (moves P) (mkdirSync orc p)"
  unfolding mkdirSync_def by (auto intro!: steps_rules)

lemma steps_JSON_parse: "steps (moves P) (JSON_parse e)"
  unfolding JSON_parse_def by (auto intro!: steps_rules split: entry.splits)

lemma steps_reconnect:
  assumes "\<And>c. offPage c \<Longrightarrow> P c"
  shows "steps (moves P) (reconnect orc)"
  unfolding reconnect_def
  by (auto intro!: steps_rules steps_readFileSync steps_JSON_parse assms simp: offPage_def)

lemma steps_removeSingletons:
  assumes "\<And>c. offPage c \<Longrightarrow> P c"
  shows "steps (moves P) (removeSingletons orc fs)"
  by (induction fs)
     (auto intro!: steps_rules steps_whenW steps_unlinkSync assms simp: offPage_def)

lemma steps_launchFresh:
  assumes "\<And>c. offPage c \<Longrightarrow> P c"
  shows "steps (moves P) (launchFresh orc)"
  unfolding launchFresh_def
  by (auto intro!: steps_rules steps_removeSingletons steps_writeFileSync assms simp: offPage_def)

lemma steps_ensureBrowser:
  assumes "\<And>c. offPage c \<Longrightarrow> P c"
  shows "steps (moves P) (ensureBrowser orc)"
  unfolding ensureBrowser_def
  by (auto intro!: steps_rules steps_whenW steps_mkdirSync steps_reconnect steps_unlinkSync
        steps_launchFresh assms simp: offPage_def split: option.splits)

lemma anyCall_all: "anyCall c"
  by (simp add: anyCall_def)

lemma offPage_anyCall: "offPage c \<Longrightarrow> anyCall c"
  by (simp add: anyCall_def)

lemmas steps_any = steps_rules steps_void steps_ignoreErrors steps_whenW anyCall_all

lemma steps_updateSession: "steps (moves anyCall) (updateSession orc u)"
  unfolding updateSession_def
  by (auto intro!: steps_any steps_readFileSync steps_JSON_parse steps_writeFileSync)

lemma steps_clickCookieButton: "steps (moves anyCall) (clickCookieButton orc sels)"
  by (induction sels) (auto intro!: steps_any split: option.splits)

lemma steps_dismissCookieBanners: "steps (moves anyCall) (dismissCookieBanners orc)"
  unfolding dismissCookieBanners_def
  by (auto intro!: steps_any steps_clickCookieButton)

lemma steps_waitForFirst: "steps (moves anyCall) (waitForFirst orc sels t)"
  by (induction sels) (auto intro!: steps_any)

lemma steps_screenshotAs: "steps (moves anyCall) (screenshotAs orc name)"
  unfolding screenshotAs_def by (auto intro!: steps_any)

lemma steps_login: "steps (moves anyCall) (login orc)"
  unfolding login_def
  by (auto intro!: steps_any steps_ensureBrowser offPage_anyCall steps_dismissCookieBanners
        steps_screenshotAs steps_waitForFirst steps_updateSession split: option.splits)

lemma steps_fillQueried: "steps (moves anyCall) (fillQueried orc field v)"
  unfolding fillQueried_def by (auto intro!: steps_any split: option.splits)

lemma steps_fillVariant: "steps (moves anyCall) (fillVariant orc label v)"
  unfolding fillVariant_def
  by (auto intro!: steps_any steps_fillQueried split: option.splits)

lemma steps_fillField: "steps (moves anyCall) (fillField orc labels v)"
  by (induction labels) (auto intro!: steps_any steps_fillVariant)

lemma steps_selectVariant: "steps (moves anyCall) (selectVariant orc label v)"
  unfolding selectVariant_def by (auto intro!: steps_any split: option.splits)

lemma steps_selectOption: "steps (moves anyCall) (selectOption orc labels v)"
  by (induction labels) (auto intro!: steps_any steps_selectVariant)

lemma steps_clickRadio: "steps (moves anyCall) (clickRadio orc sels b)"
  by (induction sels arbitrary: b) (auto intro!: steps_any split: option.splits)

lemma steps_chooseDifferentAddress: "steps (moves anyCall) (chooseDifferentAddress orc)"
  unfolding chooseDifferentAddress_def by (auto intro!: steps_any steps_clickRadio)

lemma steps_fillSpecialInstructions: "steps (moves anyCall) (fillSpecialInstructions orc i)"
  unfolding fillSpecialInstructions_def
  by (auto intro!: steps_any steps_fillField simp del: fillField.simps)

lemma steps_fillFormFields: "steps (moves anyCall) (fillFormFields orc st)"
  unfolding fillFormFields_def
  by (intro steps_any steps_fillField steps_selectOption steps_fillSpecialInstructions)

lemma steps_selectDateAndTime: "steps (moves anyCall) (selectDateAndTime orc st)"
  unfolding selectDateAndTime_def by (auto intro!: steps_any)

lemma steps_fillForm: "steps (moves anyCall) (fillForm orc options)"
  unfolding fillForm_def
  by (auto intro!: steps_any steps_ensureBrowser offPage_anyCall steps_login
        steps_dismissCookieBanners steps_screenshotAs steps_chooseDifferentAddress
        steps_fillFormFields steps_selectDateAndTime steps_updateSession split: option.splits)

section \<open>Programs that never throw\<close>

lemmas nothrow_rules =
  nothrow_ret nothrow_reads nothrow_modify nothrow_andThen nothrow_tryCatch nothrow_ifW

lemma nothrow_fillField: "nothrow (fillField orc labels v)"
  by (induction labels) (auto intro!: nothrow_rules)

lemma nothrow_selectOption: "nothrow (selectOption orc labels v)"
  by (induction labels) (auto intro!: nothrow_rules)

lemma nothrow_fillSpecialInstructions: "nothrow (fillSpecialInstructions orc i)"
  unfolding fillSpecialInstructions_def void_def
  by (auto intro!: nothrow_rules nothrow_fillField simp del: fillField.simps)

lemma nothrow_fillFormFields: "nothrow (fillFormFields orc st)"
  unfolding fillFormFields_def void_def
  by (intro nothrow_rules nothrow_fillField nothrow_selectOption nothrow_fillSpecialInstructions)

lemma nothrow_extractConfirmation: "nothrow (extractConfirmation orc)"
  unfolding extractConfirmation_def by (intro nothrow_rules)

lemma nothrow_reset: "nothrow (reset orc)"
  unfolding reset_def by (intro nothrow_rules)

section \<open>The first call of a program\<close>

lemma starts_ext: "starts c (ext orc c)"
  by (simp add: starts_def ext_def Let_def split: answer.splits)

lemma starts_andThen:
  assumes "starts c m" and "\<And>x. steps (moves anyCall) (f x)"
  shows "starts c (andThen m f)"
  unfolding starts_def
proof
  fix w
  obtain r w1 where mw: "m w = (r, w1)" by (cases "m w")
  from assms(1) mw obtain cs where t1: "trace w1 = trace w @ c # cs"
    unfolding starts_def by (metis snd_conv)
  show "\<exists>cs. trace (snd (andThen m f w)) = trace w @ c # cs"
  proof (cases r)
    case (Inl e)
    with mw t1 show ?thesis by (simp add: andThen_def)
  next
    case (Inr x)
    have "moves anyCall w1 (snd (f x w1))" using assms(2) by (simp add: steps_def)
    then obtain ds where "trace (snd (f x w1)) = trace w1 @ ds"
      unfolding moves_def by blast
    with mw Inr t1 show ?thesis by (simp add: andThen_def)
  qed
qed

lemma starts_tryCatch:
  assumes "starts c m" and "\<And>e. steps (moves anyCall) (h e)"
  shows "starts c (tryCatch m h)"
  unfolding starts_def
proof
  fix w
  obtain r w1 where mw: "m w = (r, w1)" by (cases "m w")
  from assms(1) mw obtain cs where t1: "trace w1 = trace w @ c # cs"
    unfolding starts_def by (metis snd_conv)
  show "\<exists>cs. trace (snd (tryCatch m h w)) = trace w @ c # cs"
  proof (cases r)
    case (Inl e)
    have "moves anyCall w1 (snd (h e w1))" using assms(2) by (simp add: steps_def)
    then obtain ds where "trace (snd (h e w1)) = trace w1 @ ds"
      unfolding moves_def by blast
    with mw Inl t1 show ?thesis by (simp add: tryCatch_def)
  next
    case (Inr x)
    with mw t1 show ?thesis by (simp add: tryCatch_def)
  qed
qed

lemma starts_calls: "starts c m \<Longrightarrow> c \<in> set (calls m w)"
  unfolding starts_def calls_def by (metis append_eq_conv_conj list.set_intros(1))

lemma calls_later:
  assumes "nothrow m" and "steps (moves anyCall) m" and "\<And>x w1. c \<in> set (calls (f x) w1)"
  shows "c \<in> set (calls (andThen m f) w)"
proof -
  from assms(1) obtain x w1 where mw: "m w = (Inr x, w1)"
    unfolding nothrow_def by blast
  from assms(2) mw have "moves anyCall w w1" by (rule stepsD)
  then obtain cs where t1: "trace w1 = trace w @ cs"
    unfolding moves_def by blast
  from assms(3) [of x w1] have "c \<in> set (drop (length (trace w1)) (trace (snd (f x w1))))"
    by (simp add: calls_def)
  then have "c \<in> set (drop (length (trace w)) (trace (snd (f x w1))))"
    using t1 by (metis (no_types, lifting) drop_drop in_set_dropD length_append add.commute)
  with mw show ?thesis by (simp add: calls_def andThen_def)
qed

lemma starts_fillField: "starts (Query (ariaSelector label)) (fillField orc (label # rest) v)"
  unfolding fillField.simps fillVariant_def
  by (intro starts_andThen starts_tryCatch starts_ext)
     (auto intro!: steps_any steps_fillQueried steps_fillField split: option.splits)

lemma starts_selectOption:
  "starts (Query (selectSelector label)) (selectOption orc (label # rest) v)"
  unfolding selectOption.simps selectVariant_def
  by (intro starts_andThen starts_tryCatch starts_ext)
     (auto intro!: steps_any steps_selectOption split: option.splits)

lemma calls_fillField_first:
  assumes "\<And>x. steps (moves anyCall) (f x)"
  shows "Query (ariaSelector label) \<in> set (calls (andThen (fillField orc (label # rest) v) f) w)"
  by (intro starts_calls starts_andThen starts_fillField assms)

lemma calls_selectOption_first:
  assumes "\<And>x. steps (moves anyCall) (f x)"
  shows "Query (selectSelector label) \<in> set (calls (andThen (selectOption orc (label # rest) v) f) w)"
  by (intro starts_calls starts_andThen starts_selectOption assms)

lemma calls_fillField_last:
  "Query (ariaSelector label) \<in> set (calls (void (fillField orc (label # rest) v)) w)"
  unfolding void_def by (intro calls_fillField_first steps_ret)

lemmas field_attempted =
  calls_fillField_first calls_selectOption_first calls_fillField_last calls_later
  nothrow_fillField nothrow_selectOption nothrow_fillSpecialInstructions
  steps_fillField steps_selectOption steps_fillSpecialInstructions steps_void steps_andThen


section \<open>What the operations return\<close>

lemma triple_pure: "(A \<Longrightarrow> triple (\<lambda>_. True) m Q) \<Longrightarrow> triple (\<lambda>_. A) m Q"
  unfolding triple_def by blast

lemma triple_keeps_clk:
  "steps (moves P) m \<Longrightarrow> triple (\<lambda>w. clk w = c) m (\<lambda>_ w. clk w = c)"
  unfolding triple_def steps_def moves_def by (metis snd_conv)

lemma triple_keeps_page:
  "steps (moves P) m \<Longrightarrow> triple (\<lambda>w. page w \<noteq> None) m (\<lambda>_ w. page w \<noteq> None)"
  unfolding triple_def steps_def moves_def by (metis snd_conv)

lemma triple_reads: "(\<And>w. P w \<Longrightarrow> Q (f w) w) \<Longrightarrow> triple P (reads f) Q"
  by (simp add: triple_def reads_def)

lemma steps_ensureBrowser_any: "steps (moves anyCall) (ensureBrowser orc)"
  by (rule steps_ensureBrowser) (rule offPage_anyCall)

lemma steps_ext_any: "steps (moves anyCall) (ext orc c)"
  by (rule steps_ext) (rule anyCall_all)

lemma fillForm_outcome:
  "triple (\<lambda>w. clk w = c) (fillForm orc options) (\<lambda>r _. fillOutcome c options r)"
  unfolding fillForm_def
  apply (rule triple_andThen [where R = "\<lambda>_ w. clk w = c"])
   apply (rule triple_keeps_clk [OF steps_ensureBrowser_any])
  apply (rule triple_andThen [where R = "\<lambda>_ w. clk w = c"])
   apply (rule triple_keeps_clk [OF steps_login])
  apply (rule triple_andThen [where R = "\<lambda>_ w. clk w = c"])
   apply (rule triple_keeps_clk [OF steps_ext_any])
  apply (rule triple_andThen [where R = "\<lambda>_ w. clk w = c"])
   apply (rule triple_keeps_clk [OF steps_dismissCookieBanners])
  apply (rule triple_andThen [where R = "\<lambda>_ w. clk w = c"])
   apply (rule triple_keeps_clk [OF steps_ext_any])
  apply (rule triple_andThen [where R = "\<lambda>st _. st = formStateOf c options"])
   apply (rule triple_reads, simp)
  apply (rule triple_pure)
  apply (rule triple_then)
  apply (rule triple_andThen [where R = "\<lambda>failed _. \<forall>r. failed = Some r \<longrightarrow> fillOutcome c options r"])
   apply (rule triple_tryCatch)
    apply (intro triple_then triple_ret, simp)
   apply (intro triple_then triple_ret, simp add: fillOutcome_def no_result_def)
  apply (simp split: option.splits)
  apply (intro conjI allI impI triple_then triple_ret)
   apply (simp add: fillOutcome_def no_result_def)
  apply simp
  done

section \<open>Runs that succeed, runs that throw\<close>

lemma succeeds_ret: "(\<And>w. P w \<Longrightarrow> Q x w) \<Longrightarrow> succeeds P (ret x) Q"
  by (simp add: succeeds_def ret_def)

lemma succeeds_andThen:
  assumes "succeeds P m R" and "\<And>x. succeeds (R x) (f x) Q"
  shows "succeeds P (andThen m f) Q"
  unfolding succeeds_def
proof (intro allI impI)
  fix w assume "P w"
  with assms(1) obtain x w1 where 1: "m w = (Inr x, w1)" "R x w1"
    unfolding succeeds_def by blast
  with assms(2) [of x] obtain y w2 where "f x w1 = (Inr y, w2)" "Q y w2"
    unfolding succeeds_def by blast
  with 1 show "\<exists>x w'. andThen m f w = (Inr x, w') \<and> Q x w'"
    by (simp add: andThen_def)
qed

lemma succeeds_weaken:
  "succeeds P' m Q' \<Longrightarrow> (\<And>w. P w \<Longrightarrow> P' w) \<Longrightarrow> (\<And>x w. Q' x w \<Longrightarrow> Q x w) \<Longrightarrow> succeeds P m Q"
  unfolding succeeds_def by meson

lemma succeeds_seq:
  "succeeds P m (\<lambda>_. P) \<Longrightarrow> (\<And>x. succeeds P (f x) Q) \<Longrightarrow> succeeds P (andThen m f) Q"
  by (rule succeeds_andThen)

lemma succeeds_found:
  assumes "succeeds P m (\<lambda>x w. x \<noteq> None \<and> P w)" and "\<And>v. succeeds P (f (Some v)) Q"
  shows "succeeds P (andThen m f) Q"
proof (rule succeeds_andThen [OF assms(1)])
  fix x show "succeeds (\<lambda>w. x \<noteq> None \<and> P w) (f x) Q"
  proof (cases x)
    case None then show ?thesis by (simp add: succeeds_def)
  next
    case (Some v) with assms(2) [of v] show ?thesis by (simp add: succeeds_def)
  qed
qed

lemma succeeds_value:
  assumes "succeeds P m (\<lambda>x w. x = a \<and> P w)" and "succeeds P (f a) Q"
  shows "succeeds P (andThen m f) Q"
proof (rule succeeds_andThen [OF assms(1)])
  fix x show "succeeds (\<lambda>w. x = a \<and> P w) (f x) Q"
    using assms(2) by (auto simp: succeeds_def)
qed

lemma succeeds_tryCatch: "succeeds P m Q \<Longrightarrow> succeeds P (tryCatch m h) Q"
  unfolding succeeds_def tryCatch_def by fastforce

lemma succeeds_caught:
  assumes "throws P m E" and "\<And>e. succeeds (E e) (h e) Q"
  shows "succeeds P (tryCatch m h) Q"
  unfolding succeeds_def
proof (intro allI impI)
  fix w assume "P w"
  with assms(1) obtain e w1 where 1: "m w = (Inl e, w1)" "E e w1"
    unfolding throws_def by blast
  with assms(2) [of e] obtain y w2 where "h e w1 = (Inr y, w2)" "Q y w2"
    unfolding succeeds_def by blast
  with 1 show "\<exists>x w'. tryCatch m h w = (Inr x, w') \<and> Q x w'"
    by (simp add: tryCatch_def)
qed

lemma succeeds_void: "succeeds P m (\<lambda>_. Q ()) \<Longrightarrow> succeeds P (void m) Q"
  unfolding void_def by (rule succeeds_andThen [where R = "\<lambda>_. Q ()"]) (auto intro: succeeds_ret)

lemma succeeds_ignoreErrors: "succeeds P m (\<lambda>_. Q ()) \<Longrightarrow> succeeds P (ignoreErrors m) Q"
  unfolding ignoreErrors_def by (intro succeeds_tryCatch succeeds_void)

lemma succeeds_ifW:
  "succeeds P m1 Q \<Longrightarrow> succeeds P m2 Q \<Longrightarrow> succeeds P (ifW b m1 m2) Q"
  unfolding succeeds_def ifW_def by simp

lemma succeeds_ifW_True:
  "(\<And>w. P w \<Longrightarrow> b w) \<Longrightarrow> succeeds P m1 Q \<Longrightarrow> succeeds P (ifW b m1 m2) Q"
  unfolding succeeds_def ifW_def by simp

lemma succeeds_ifW_False:
  "(\<And>w. P w \<Longrightarrow> \<not> b w) \<Longrightarrow> succeeds P m2 Q \<Longrightarrow> succeeds P (ifW b m1 m2) Q"
  unfolding succeeds_def ifW_def by simp

lemma succeeds_whenW: "succeeds P m (\<lambda>_. P) \<Longrightarrow> succeeds P (whenW b m) (\<lambda>_. P)"
  unfolding whenW_def by (intro succeeds_ifW succeeds_ret)

lemma succeeds_reads: "(\<And>w. P w \<Longrightarrow> Q (f w) w) \<Longrightarrow> succeeds P (reads f) Q"
  by (simp add: succeeds_def reads_def)

lemma succeeds_reads_then:
  "(\<And>x. succeeds (\<lambda>w. P w \<and> x = g w) (f x) Q) \<Longrightarrow> succeeds P (andThen (reads g) f) Q"
  by (rule succeeds_andThen [where R = "\<lambda>x w. P w \<and> x = g w"]) (simp_all add: succeeds_reads)

lemma succeeds_modify: "(\<And>w. P w \<Longrightarrow> Q () (f w)) \<Longrightarrow> succeeds P (modify f) Q"
  by (simp add: succeeds_def modify_def)

lemma succeeds_ext:
  assumes "obliging orc" and "\<not> isWait c" and "stable P"
  shows "succeeds P (ext orc c) (\<lambda>x w. x \<noteq> None \<and> P w)"
  unfolding succeeds_def
proof (intro allI impI)
  fix w assume "P w"
  from assms(1,2) obtain v where "orc (length (trace w)) c = Value v"
    unfolding obliging_def by blast
  moreover from assms(3) \<open>P w\<close> have "P (w\<lparr>trace := trace w @ [c]\<rparr>)"
    unfolding stable_def by blast
  ultimately show "\<exists>x w'. ext orc c w = (Inr x, w') \<and> x \<noteq> None \<and> P w'"
    by (simp add: ext_def)
qed

lemma succeeds_ext_unit:
  assumes "obliging orc" and "\<not> isWait c" and "stable P"
  shows "succeeds P (ext orc c) (\<lambda>_. P)"
  by (rule succeeds_weaken [OF succeeds_ext [OF assms]]) simp_all

lemma succeeds_wait:
  assumes "appears orc" and "stable P"
  shows "succeeds P (ext orc (WaitForSelector s t)) (\<lambda>x w. x \<noteq> None \<and> P w)"
  unfolding succeeds_def
proof (intro allI impI)
  fix w assume "P w"
  from assms(1) obtain v where "orc (length (trace w)) (WaitForSelector s t) = Value v"
    unfolding appears_def by blast
  moreover from assms(2) \<open>P w\<close> have "P (w\<lparr>trace := trace w @ [WaitForSelector s t]\<rparr>)"
    unfolding stable_def by blast
  ultimately show "\<exists>x w'. ext orc (WaitForSelector s t) w = (Inr x, w') \<and> x \<noteq> None \<and> P w'"
    by (simp add: ext_def)
qed

lemma throws_wait:
  assumes "neverAppears orc" and "stable P"
  shows "throws P (ext orc (WaitForSelector s t)) (\<lambda>_. P)"
  unfolding throws_def
proof (intro allI impI)
  fix w assume "P w"
  from assms(1) obtain e where "orc (length (trace w)) (WaitForSelector s t) = Throws e"
    unfolding neverAppears_def by blast
  moreover from assms(2) \<open>P w\<close> have "P (w\<lparr>trace := trace w @ [WaitForSelector s t]\<rparr>)"
    unfolding stable_def by blast
  ultimately show "\<exists>e w'. ext orc (WaitForSelector s t) w = (Inl e, w') \<and> P w'"
    by (simp add: ext_def)
qed

lemma throws_raise: "(\<And>w. P w \<Longrightarrow> E e w) \<Longrightarrow> throws P (raise e) E"
  by (simp add: throws_def raise_def)

lemma throws_andThen:
  assumes "succeeds P m R" and "\<And>x. throws (R x) (f x) E"
  shows "throws P (andThen m f) E"
  unfolding throws_def
proof (intro allI impI)
  fix w assume "P w"
  with assms(1) obtain x w1 where 1: "m w = (Inr x, w1)" "R x w1"
    unfolding succeeds_def by blast
  with assms(2) [of x] obtain e w2 where "f x w1 = (Inl e, w2)" "E e w2"
    unfolding throws_def by blast
  with 1 show "\<exists>e w'. andThen m f w = (Inl e, w') \<and> E e w'"
    by (simp add: andThen_def)
qed

lemma throws_first: "throws P m E \<Longrightarrow> throws P (andThen m f) E"
  unfolding throws_def andThen_def by fastforce

lemma throws_seq:
  "succeeds P m (\<lambda>_. P) \<Longrightarrow> (\<And>x. throws P (f x) E) \<Longrightarrow> throws P (andThen m f) E"
  by (rule throws_andThen)

lemma succeeds_triple:
  "succeeds P m Q \<Longrightarrow> triple P m Q' \<Longrightarrow> succeeds P m (\<lambda>x w. Q x w \<and> Q' x w)"
  unfolding succeeds_def triple_def by blast

lemma stable_settled: "stable settled"
  by (simp add: stable_def settled_def)

lemma stable_conj: "stable P \<Longrightarrow> stable Q \<Longrightarrow> stable (\<lambda>w. P w \<and> Q w)"
  by (simp add: stable_def)

lemma stable_page: "stable (\<lambda>w. page w \<noteq> None)"
  by (simp add: stable_def)

lemma stable_const: "stable (\<lambda>w. A)"
  by (simp add: stable_def)

lemma stable_clk: "stable (\<lambda>w. x = f (clk w))"
  by (simp add: stable_def)

section \<open>A cooperating page\<close>

lemma succeeds_ext_then:
  assumes "obliging orc" and "\<not> isWait c" and "stable P"
    and "\<And>v. succeeds P (f (Some v)) Q"
  shows "succeeds P (andThen (ext orc c) f) Q"
proof (rule succeeds_found)
  show "succeeds P (ext orc c) (\<lambda>x w. x \<noteq> None \<and> P w)"
    by (rule succeeds_ext [OF assms(1-3)])
qed (rule assms(4))

lemma succeeds_reads_any:
  "(\<And>x. succeeds P (f x) Q) \<Longrightarrow> succeeds P (andThen (reads g) f) Q"
  by (rule succeeds_andThen [where R = "\<lambda>_. P"]) (simp_all add: succeeds_reads)

lemmas ok_rules =
  succeeds_ext_then succeeds_reads_any succeeds_ret succeeds_tryCatch succeeds_void
  succeeds_ignoreErrors succeeds_ext_unit

lemma ok_screenshotAs:
  assumes "obliging orc" and "stable P"
  shows "succeeds P (screenshotAs orc name) (\<lambda>_. P)"
  unfolding screenshotAs_def
  by (intro ok_rules assms) simp_all

lemma ok_clickCookieButton:
  assumes "obliging orc" and "stable P"
  shows "succeeds P (clickCookieButton orc (s # rest)) (\<lambda>_. P)"
  unfolding clickCookieButton.simps
  apply (rule succeeds_value [where a = True])
   apply (rule succeeds_tryCatch)
   apply (rule succeeds_ext_then [OF assms(1) _ assms(2)], simp)
   apply (simp, intro ok_rules assms; simp)
  apply (simp add: succeeds_ret)
  done

lemma ok_dismissCookieBanners:
  assumes "obliging orc" and "stable P"
  shows "succeeds P (dismissCookieBanners orc) (\<lambda>_. P)"
  unfolding dismissCookieBanners_def cookieButtonSelectors_def
  apply (rule succeeds_ext_then [OF assms(1) _ assms(2)], simp)
  apply (rule succeeds_seq)
   apply (intro ok_rules assms, simp)
  apply (rule succeeds_seq)
   apply (rule ok_clickCookieButton [OF assms])
  apply (intro ok_rules assms, simp)
  done

lemma andThen_ret [simp]: "andThen (ret x) f = f x"
  by (rule ext) (simp add: andThen_def ret_def)

lemma succeeds_assume: "(A \<Longrightarrow> succeeds P m Q) \<Longrightarrow> succeeds (\<lambda>w. A \<and> P w) m Q"
  unfolding succeeds_def by blast

lemma succeeds_modify_then:
  assumes "\<And>w. P w \<Longrightarrow> P (g w)" and "\<And>x. succeeds P (f x) Q"
  shows "succeeds P (andThen (modify g) f) Q"
  by (rule succeeds_andThen [where R = "\<lambda>_. P"]) (simp_all add: succeeds_modify assms)

lemma ok_screenshotAs_path:
  assumes "obliging orc" and "stable P"
  shows "succeeds P (screenshotAs orc name)
     (\<lambda>x w. x = SCREENSHOT_DIR @ ''/'' @ name @ String_of (now (clk w)) @ ''.png'' \<and> P w)"
  unfolding screenshotAs_def
  apply (rule succeeds_reads_then)
  apply (rule succeeds_ext_then [OF assms(1)])
    apply simp
   apply (intro stable_conj assms stable_clk)
  apply (rule succeeds_ret)
  apply simp
  done

lemma ok_waitForFirst:
  assumes "appears orc" and "stable P"
  shows "succeeds P (waitForFirst orc (s # rest) t) (\<lambda>x w. x \<noteq> None \<and> P w)"
  unfolding waitForFirst.simps
  apply (rule succeeds_found)
   apply (rule succeeds_tryCatch)
   apply (rule succeeds_wait [OF assms])
  apply (simp add: succeeds_ret)
  done

lemma never_waitForFirst:
  assumes "neverAppears orc" and "stable P"
  shows "succeeds P (waitForFirst orc sels t) (\<lambda>x w. x = None \<and> P w)"
proof (induction sels)
  case Nil
  show ?case by (simp add: succeeds_ret)
next
  case (Cons s rest)
  show ?case
    unfolding waitForFirst.simps
    apply (rule succeeds_value [where a = None])
     apply (rule succeeds_caught [OF throws_wait [OF assms]])
     apply (simp add: succeeds_ret)
    apply (simp add: Cons.IH)
    done
qed

subsection \<open>The session store on a settled world\<close>

lemma ok_readFileSync:
  assumes "obliging orc"
  shows "succeeds settled (readFileSync orc SESSION_PATH) (\<lambda>e w. (\<exists>s. e = Json s) \<and> settled w)"
  unfolding readFileSync_def
  apply (rule succeeds_ext_then [OF assms _ stable_settled], simp)
  apply (rule succeeds_reads_then)
  apply (auto simp: succeeds_def settled_def ret_def)
  done

lemma ok_writeFileSync:
  assumes "obliging orc"
  shows "succeeds settled (writeFileSync orc SESSION_PATH (Json s)) (\<lambda>_. settled)"
  unfolding writeFileSync_def
  apply (rule succeeds_ext_then [OF assms _ stable_settled], simp)
  apply (rule succeeds_modify)
  apply (auto simp: settled_def SESSION_PATH_def USER_DATA_DIR_def)
  done

lemma ok_reconnect:
  assumes "obliging orc"
  shows "succeeds settled (reconnect orc) (\<lambda>x w. x \<noteq> None \<and> settled w)"
  unfolding reconnect_def
  apply (rule succeeds_andThen [OF ok_readFileSync [OF assms]])
  apply (rule succeeds_assume)
  apply (erule exE)
  apply (simp add: JSON_parse_def)
  apply (rule succeeds_ext_then [OF assms _ stable_settled], simp)
  apply (rule succeeds_modify_then, simp add: settled_def)
  apply (rule succeeds_ext_then [OF assms _ stable_settled], simp)
  apply simp
  apply (rule succeeds_modify_then, simp add: settled_def)
  apply (rule succeeds_ext_then [OF assms _ stable_settled], simp)
  apply simp
  apply (rule succeeds_modify_then, simp add: settled_def)
  apply (rule succeeds_ret, simp)
  done

lemma ok_ensureBrowser:
  assumes "obliging orc"
  shows "succeeds settled (ensureBrowser orc) (\<lambda>_. settled)"
  unfolding ensureBrowser_def whenW_def
  apply (rule succeeds_seq)
   apply (rule succeeds_ifW_False, simp add: settled_def existsSync_def)
   apply (rule succeeds_ret, assumption)
  apply (rule succeeds_found)
   apply (rule succeeds_ifW_True, simp add: settled_def existsSync_def, blast)
   apply (rule succeeds_tryCatch)
   apply (rule ok_reconnect [OF assms])
  apply (simp add: succeeds_ret)
  done

lemma ok_updateSession:
  assumes "obliging orc"
  shows "succeeds settled (updateSession orc u) (\<lambda>_. settled)"
  unfolding updateSession_def whenW_def
  apply (rule succeeds_ifW_True, simp add: settled_def existsSync_def, blast)
  apply (rule succeeds_andThen [OF ok_readFileSync [OF assms]])
  apply (rule succeeds_assume)
  apply (erule exE)
  apply (simp add: JSON_parse_def)
  apply (rule ok_writeFileSync [OF assms])
  done

subsection \<open>Login\<close>

lemma throws_assume: "(A \<Longrightarrow> throws P m E) \<Longrightarrow> throws (\<lambda>w. A \<and> P w) m E"
  unfolding throws_def by blast

lemma ok_waitForFirst_username:
  assumes "appears orc" and "stable P"
  shows "succeeds P (waitForFirst orc usernameSelectors t) (\<lambda>x w. x \<noteq> None \<and> P w)"
  unfolding usernameSelectors_def by (rule ok_waitForFirst [OF assms])

lemma ok_waitForFirst_password:
  assumes "appears orc" and "stable P"
  shows "succeeds P (waitForFirst orc passwordSelectors t) (\<lambda>x w. x \<noteq> None \<and> P w)"
  unfolding passwordSelectors_def by (rule ok_waitForFirst [OF assms])

lemma ok_login:
  assumes "obliging orc" and "appears orc"
  shows "succeeds settled (login orc) (\<lambda>_. settled)"
  unfolding login_def
  apply (rule succeeds_seq [OF ok_ensureBrowser [OF assms(1)]])
  apply (rule succeeds_ext_then [OF assms(1) _ stable_settled], simp)
  apply (rule succeeds_ext_then [OF assms(1) _ stable_settled], simp)
  apply (rule succeeds_seq [OF ok_dismissCookieBanners [OF assms(1) stable_settled]])
  apply (rule succeeds_seq [OF ok_screenshotAs [OF assms(1) stable_settled]])
  apply (rule succeeds_found [OF ok_waitForFirst_username [OF assms(2) stable_settled]])
  apply simp
  apply (rule succeeds_reads_any)
  apply (rule succeeds_ext_then [OF assms(1) _ stable_settled], simp)
  apply (rule succeeds_ext_then [OF assms(1) _ stable_settled], simp)
  apply simp
  apply (rule succeeds_seq)
   apply (rule succeeds_ext_then [OF assms(1) _ stable_settled], simp)
   apply (rule succeeds_ext_then [OF assms(1) _ stable_settled], simp)
   apply (rule ok_dismissCookieBanners [OF assms(1) stable_settled])
  apply (rule succeeds_found [OF ok_waitForFirst_password [OF assms(2) stable_settled]])
  apply simp
  apply (rule succeeds_reads_any)
  apply (rule succeeds_ext_then [OF assms(1) _ stable_settled], simp)
  apply (rule succeeds_ext_then [OF assms(1) _ stable_settled], simp)
  apply simp
  apply (rule succeeds_seq)
   apply (rule succeeds_void)
   apply (rule succeeds_ext_unit [OF assms(1) _ stable_settled], simp)
  apply (rule succeeds_seq)
   apply (rule succeeds_tryCatch)
   apply (rule succeeds_void)
   apply (rule succeeds_ext_unit [OF assms(1) _ stable_settled], simp)
  apply (rule succeeds_seq [OF ok_updateSession [OF assms(1)]])
  apply (rule succeeds_ret, assumption)
  done

text \<open>
  When no username field ever appears, \<open>login\<close> throws, after a screenshot, whatever else
  the page does.
\<close>

lemma never_login:
  assumes "obliging orc" and "neverAppears orc"
  shows "throws settled (login orc)
     (\<lambda>e w. e = ''Could not find username field. See screenshot: '' @ SCREENSHOT_DIR @ ''/''
                @ ''ups-login-error-no-username-'' @ String_of (now (clk w)) @ ''.png'')"
  unfolding login_def
  apply (rule throws_seq [OF ok_ensureBrowser [OF assms(1)]])
  apply (rule throws_seq [OF succeeds_ext_unit [OF assms(1) _ stable_settled]], simp)
  apply (rule throws_seq [OF succeeds_ext_unit [OF assms(1) _ stable_settled]], simp)
  apply (rule throws_seq [OF ok_dismissCookieBanners [OF assms(1) stable_settled]])
  apply (rule throws_seq [OF ok_screenshotAs [OF assms(1) stable_settled]])
  apply (rule throws_andThen [OF never_waitForFirst [OF assms(2) stable_settled]])
  apply (rule throws_assume)
  apply simp
  apply (rule throws_andThen [OF ok_screenshotAs_path [OF assms(1) stable_settled]])
  apply (rule throws_raise)
  apply simp
  done

subsection \<open>Filling on a cooperating page\<close>

lemma ok_fillQueried:
  assumes "obliging orc" and "stable P"
  shows "succeeds P (fillQueried orc (Some f) v) (\<lambda>x w. x = True \<and> P w)"
  unfolding fillQueried_def
  apply simp
  apply (rule succeeds_ext_then [OF assms(1) _ assms(2)], simp)
  apply (rule succeeds_ret, simp)
  done

lemma ok_fillVariant:
  assumes "obliging orc" and "stable P"
  shows "succeeds P (fillVariant orc label v) (\<lambda>x w. x = True \<and> P w)"
  unfolding fillVariant_def
  apply (rule succeeds_ext_then [OF assms(1) _ assms(2)], simp)
  apply (rule succeeds_value [OF ok_fillQueried [OF assms]])
  apply (simp add: succeeds_ret)
  done

lemma ok_fillField:
  assumes "obliging orc" and "stable P"
  shows "succeeds P (fillField orc labels v) (\<lambda>_. P)"
proof (cases labels)
  case Nil
  then show ?thesis by (simp add: succeeds_ret)
next
  case (Cons label rest)
  show ?thesis
    unfolding Cons fillField.simps
    apply (rule succeeds_value [where a = True])
     apply (rule succeeds_tryCatch [OF ok_fillVariant [OF assms]])
    apply (simp add: succeeds_ret)
    done
qed

lemma ok_selectVariant:
  assumes "obliging orc" and "stable P"
  shows "succeeds P (selectVariant orc label v) (\<lambda>x w. x = True \<and> P w)"
  unfolding selectVariant_def
  apply (rule succeeds_ext_then [OF assms(1) _ assms(2)], simp)
  apply simp
  apply (rule succeeds_ext_then [OF assms(1) _ assms(2)], simp)
  apply (rule succeeds_ret, simp)
  done

lemma ok_selectOption:
  assumes "obliging orc" and "stable P"
  shows "succeeds P (selectOption orc labels v) (\<lambda>_. P)"
proof (cases labels)
  case Nil
  then show ?thesis by (simp add: succeeds_ret)
next
  case (Cons label rest)
  show ?thesis
    unfolding Cons selectOption.simps
    apply (rule succeeds_value [where a = True])
     apply (rule succeeds_tryCatch [OF ok_selectVariant [OF assms]])
    apply (simp add: succeeds_ret)
    done
qed

lemma ok_clickRadio:
  assumes "obliging orc" and "stable P"
  shows "succeeds P (clickRadio orc (s # rest) b) (\<lambda>x w. x = True \<and> P w)"
  unfolding clickRadio.simps
  apply (rule succeeds_value [where a = "(True, True)"])
   apply (rule succeeds_tryCatch)
   apply (rule succeeds_ext_then [OF assms(1) _ assms(2)], simp)
   apply simp
   apply (rule succeeds_ext_then [OF assms(1) _ assms(2)], simp)
   apply (rule succeeds_tryCatch)
   apply (rule succeeds_ext_then [OF assms(1) _ assms(2)], simp)
   apply (rule succeeds_ret, simp)
  apply (simp add: succeeds_ret)
  done

lemma ok_chooseDifferentAddress:
  assumes "obliging orc" and "stable P"
  shows "succeeds P (chooseDifferentAddress orc) (\<lambda>_. P)"
  unfolding chooseDifferentAddress_def differentAddressSelectors_def
  apply (rule succeeds_value [OF ok_clickRadio [OF assms]])
  apply (simp add: succeeds_ret)
  done

lemma ok_fillSpecialInstructions:
  assumes "obliging orc" and "stable P"
  shows "succeeds P (fillSpecialInstructions orc i) (\<lambda>_. P)"
  unfolding fillSpecialInstructions_def
  by (cases "truthy i")
     (simp_all add: succeeds_ret succeeds_void ok_fillField [OF assms] del: fillField.simps)

lemma ok_fillFormFields:
  assumes "obliging orc" and "stable P"
  shows "succeeds P (fillFormFields orc st) (\<lambda>_. P)"
  unfolding fillFormFields_def
  by (intro succeeds_seq succeeds_void ok_fillField ok_selectOption ok_fillSpecialInstructions assms)

lemma ok_selectDateAndTime:
  assumes "obliging orc" and "stable P"
  shows "succeeds P (selectDateAndTime orc st) (\<lambda>_. P)"
  unfolding selectDateAndTime_def
  apply (rule succeeds_ext_then [OF assms(1) _ assms(2)], simp)
  apply (rule succeeds_ext_then [OF assms(1) _ assms(2)], simp)
  apply (rule succeeds_ext_then [OF assms(1) _ assms(2)], simp)
  apply (cases "fs_earliestTime st = []")
   apply (simp add: succeeds_ret)
  apply simp
  apply (rule succeeds_void)
  apply (rule succeeds_ext_unit [OF assms(1) _ assms(2)], simp)
  done

lemma ok_fillForm:
  assumes "obliging orc" and "appears orc"
  shows "succeeds settled (fillForm orc options) (\<lambda>r w. success r \<and> settled w)"
  unfolding fillForm_def
  apply (rule succeeds_seq [OF ok_ensureBrowser [OF assms(1)]])
  apply (rule succeeds_seq [OF ok_login [OF assms]])
  apply (rule succeeds_ext_then [OF assms(1) _ stable_settled], simp)
  apply (rule succeeds_seq [OF ok_dismissCookieBanners [OF assms(1) stable_settled]])
  apply (rule succeeds_ext_then [OF assms(1) _ stable_settled], simp)
  apply (rule succeeds_reads_any)
  apply (rule succeeds_seq [OF ok_screenshotAs [OF assms(1) stable_settled]])
  apply (rule succeeds_value [where a = None])
   apply (rule succeeds_tryCatch)
   apply (rule succeeds_seq [OF ok_chooseDifferentAddress [OF assms(1) stable_settled]])
   apply (rule succeeds_seq [OF ok_fillFormFields [OF assms(1) stable_settled]])
   apply (rule succeeds_seq [OF ok_selectDateAndTime [OF assms(1) stable_settled]])
   apply (rule succeeds_ret, simp)
  apply simp
  apply (rule succeeds_seq [OF ok_screenshotAs [OF assms(1) stable_settled]])
  apply (rule succeeds_seq [OF ok_updateSession [OF assms(1)]])
  apply (rule succeeds_ret, simp add: no_result_def)
  done

subsection \<open>Submitting on a cooperating page\<close>

lemma ok_clickVisible:
  assumes "obliging orc" and "stable P"
  shows "succeeds P (clickVisible orc (s # rest)) (\<lambda>x w. x = True \<and> P w)"
  unfolding clickVisible.simps
  apply (rule succeeds_value [where a = True])
   apply (rule succeeds_tryCatch)
   apply (rule succeeds_ext_then [OF assms(1) _ assms(2)], simp)
   apply simp
   apply (rule succeeds_ext_then [OF assms(1) _ assms(2)], simp)
   apply simp
   apply (rule succeeds_ext_then [OF assms(1) _ assms(2)], simp)
   apply (rule succeeds_ext_then [OF assms(1) _ assms(2)], simp)
   apply (rule succeeds_ret, simp)
  apply (simp add: succeeds_ret)
  done

lemma ok_clickOrScript:
  assumes "obliging orc" and "stable P"
  shows "succeeds P (clickOrScript orc (s # rest) script) (\<lambda>_. P)"
  unfolding clickOrScript_def
  apply (rule succeeds_value [OF ok_clickVisible [OF assms]])
  apply (simp add: succeeds_ret)
  done

lemma ok_extractConfirmation:
  assumes "obliging orc" and "stable P"
  shows "succeeds P (extractConfirmation orc) (\<lambda>_. P)"
  unfolding extractConfirmation_def
  apply (rule succeeds_tryCatch)
  apply (rule succeeds_ext_then [OF assms(1) _ assms(2)], simp)
  apply (rule succeeds_ret, assumption)
  done

lemma ok_unlinkSync:
  assumes "obliging orc"
  shows "succeeds settled (unlinkSync orc SESSION_PATH) (\<lambda>_ _. True)"
  unfolding unlinkSync_def
  apply (rule succeeds_ext_then [OF assms _ stable_settled], simp)
  apply (rule succeeds_reads_then)
  apply (auto simp: succeeds_def settled_def modify_def)
  done

lemma ok_reset:
  assumes "obliging orc"
  shows "succeeds settled (reset orc) (\<lambda>r _. success r)"
  unfolding reset_def whenW_def
  apply (rule succeeds_tryCatch)
  apply (rule succeeds_seq)
   apply (rule succeeds_ifW)
    apply (rule succeeds_ext_then [OF assms _ stable_settled], simp)
    apply (rule succeeds_modify, simp add: settled_def)
   apply (rule succeeds_ret, assumption)
  apply (rule succeeds_andThen [where R = "\<lambda>_ _. True"])
   apply (rule succeeds_ifW_True, simp add: settled_def existsSync_def, blast)
   apply (rule ok_unlinkSync [OF assms])
  apply (rule succeeds_ret, simp add: resetDone_def no_result_def)
  done

section \<open>Running a program on a concrete world\<close>

lemma run_andThen:
  "andThen m f w = (case m w of (Inl e, w') \<Rightarrow> (Inl e, w') | (Inr x, w') \<Rightarrow> f x w')"
  by (simp add: andThen_def)

lemma run_tryCatch:
  "tryCatch m h w = (case m w of (Inl e, w') \<Rightarrow> h e w' | (Inr x, w') \<Rightarrow> (Inr x, w'))"
  by (simp add: tryCatch_def)

lemma run_ret: "ret x w = (Inr x, w)"
  by (simp add: ret_def)

lemma run_raise: "raise e w = (Inl e, w)"
  by (simp add: raise_def)

lemma run_reads: "reads f w = (Inr (f w), w)"
  by (simp add: reads_def)

lemma run_modify: "modify f w = (Inr (), f w)"
  by (simp add: modify_def)

lemma run_ifW: "ifW b m1 m2 w = (if b w then m1 w else m2 w)"
  by (simp add: ifW_def)

lemma run_ext:
  "ext orc c w =
     (case orc (length (trace w)) c of
        Throws e \<Rightarrow> (Inl e, w\<lparr>trace := trace w @ [c]\<rparr>)
      | Nothing \<Rightarrow> (Inr None, w\<lparr>trace := trace w @ [c]\<rparr>)
      | Value v \<Rightarrow> (Inr (Some v), w\<lparr>trace := trace w @ [c]\<rparr>))"
  by (simp add: ext_def Let_def)

lemmas run_flow =
  run_andThen run_tryCatch run_ret run_raise run_reads run_modify run_ifW
  void_def [THEN fun_cong] ignoreErrors_def [THEN fun_cong] whenW_def [THEN fun_cong]
  existsSync_def

lemmas run_basic = run_flow run_ext

lemmas run_files =
  readFileSync_def [THEN fun_cong] writeFileSync_def [THEN fun_cong]
  unlinkSync_def [THEN fun_cong] mkdirSync_def [THEN fun_cong] JSON_parse_def

lemmas run_session =
  reconnect_def [THEN fun_cong] launchFresh_def [THEN fun_cong] ensureBrowser_def [THEN fun_cong]
  updateSession_def [THEN fun_cong] removeSingletons.simps [THEN fun_cong] singletonFiles_def
  notFilled_def [THEN fun_cong]

lemmas run_submit =
  submit_def [THEN fun_cong] clickAndSettle_def [THEN fun_cong] screenshotAs_def [THEN fun_cong]
  extractConfirmation_def [THEN fun_cong]

lemmas run_paths = SESSION_PATH_def USER_DATA_DIR_def SCREENSHOT_DIR_def

lemma stamp: "String_of 1751239800000 = ''1751239800000''"
  by (simp add: String_of_def show_nat.simps digit_def)

section \<open>Results and screenshots\<close>

lemma triple_modify: "(\<And>w. P w \<Longrightarrow> Q () (f w)) \<Longrightarrow> triple P (modify f) Q"
  by (simp add: triple_def modify_def)

lemma reconnect_page:
  "triple (\<lambda>_. True) (reconnect orc) (\<lambda>found w. found \<noteq> None \<longrightarrow> page w \<noteq> None)"
  unfolding triple_def reconnect_def
  by (auto elim!: andThen_InrE simp: ret_def modify_def split: if_splits)

lemma launchFresh_page: "triple (\<lambda>_. True) (launchFresh orc) (\<lambda>_ w. page w \<noteq> None)"
  unfolding launchFresh_def
  apply (rule triple_then, rule triple_then, rule triple_then, rule triple_then,
         rule triple_then, rule triple_then)
  apply (rule triple_andThen [where R = "\<lambda>_ w. page w \<noteq> None"])
   apply (rule triple_modify, simp)
  apply (rule triple_keeps_page [where P = anyCall])
  apply (auto intro!: steps_any steps_writeFileSync)
  done

lemma ensureBrowser_page: "triple (\<lambda>_. True) (ensureBrowser orc) (\<lambda>_ w. page w \<noteq> None)"
  unfolding ensureBrowser_def
  apply (rule triple_then)
  apply (rule triple_andThen [where R = "\<lambda>found w. found \<noteq> None \<longrightarrow> page w \<noteq> None"])
   apply (rule triple_ifW)
    apply (rule triple_tryCatch [OF reconnect_page])
    apply (intro triple_then triple_ret, simp)
   apply (rule triple_ret, simp)
  subgoal for u found
    apply (cases found)
     apply simp
     apply (rule triple_weaken [OF launchFresh_page]; simp)
    apply (simp add: triple_def ret_def)
    done
  done

lemma fillForm_page: "triple (\<lambda>_. True) (fillForm orc options) (\<lambda>_ w. page w \<noteq> None)"
  unfolding fillForm_def
  apply (rule triple_andThen [OF ensureBrowser_page])
  apply (rule triple_keeps_page [where P = anyCall])
  apply (auto intro!: steps_any steps_login steps_dismissCookieBanners steps_screenshotAs
      steps_chooseDifferentAddress steps_fillFormFields steps_selectDateAndTime
      steps_updateSession split: option.splits)
  done

lemma submit_outcome:
  "triple (\<lambda>_. True) (submit orc) (\<lambda>r _. screenshot r \<noteq> None \<or> r = notFilledError)"
  unfolding submit_def
  apply (rule triple_then, rule triple_then)
  apply (simp split: if_splits)
  apply (intro conjI impI)
   apply (rule triple_ret, simp)
  apply (rule triple_tryCatch)
   apply (intro triple_then triple_ret, simp)
  apply (intro triple_then triple_ret, simp)
  done

lemma book_outcome: "triple (\<lambda>_. True) (book orc options) (\<lambda>r _. screenshots r \<noteq> [])"
  unfolding book_def
  apply (rule triple_andThen
      [where R = "\<lambda>r w. fillOutcome (clk w) options r \<and> page w \<noteq> None"])
  subgoal
    unfolding triple_def
  proof (intro allI impI)
    fix w x w'
    assume run: "fillForm orc options w = (Inr x, w')"
    have "moves anyCall w w'" by (rule stepsD [OF steps_fillForm run])
    then have "clk w' = clk w" by (simp add: moves_def)
    moreover have "fillOutcome (clk w) options x"
      by (rule tripleD [OF fillForm_outcome _ run]) simp
    moreover have "page w' \<noteq> None"
      by (rule tripleD [OF fillForm_page _ run]) simp
    ultimately show "fillOutcome (clk w') options x \<and> page w' \<noteq> None" by simp
  qed
  subgoal for fillResult
    apply (cases "error fillResult")
     apply (auto simp: triple_def ret_def fillOutcome_def screenshots_def)[1]
    apply simp
    apply (rule triple_andThen [where R = "\<lambda>_ w. page w \<noteq> None"])
     apply (rule triple_weaken [OF triple_keeps_page [where P = anyCall]])
       apply (auto intro!: steps_any)[3]
    apply (rule triple_andThen [where R = "\<lambda>p _. p \<noteq> None"])
     apply (rule triple_reads, simp)
    subgoal for u p
      apply (cases p)
       apply (simp add: triple_def)
      apply simp
      apply (rule triple_tryCatch)
       apply (intro triple_then triple_ret, simp add: screenshots_def)
      apply (intro triple_then triple_ret, simp add: screenshots_def)
      done
    done
  done

section \<open>Smart defaults\<close>

lemma floor_second_hour: "((x::int) div 1000 * 1000) div 3600000 = x div 3600000"
proof -
  have "(x div 1000 * 1000) div (1000 * 3600) = (x div 1000 * 1000) div 1000 div 3600"
    by (rule zdiv_zmult2_eq) simp
  also have "\<dots> = x div 1000 div 3600" by simp
  also have "\<dots> = x div (1000 * 3600)" by (rule zdiv_zmult2_eq [symmetric]) simp
  finally show ?thesis by simp
qed

lemma getHours_ukTime: "getHours c (ukTime c) = londonHour c"
  by (simp add: getHours_def ukTime_def londonHour_def msPerHour_def floor_second_hour)

text \<open>
  C7. \<open>getSmartEarliestTime\<close> returns \<open>(hour+1):00\<close> for every London hour in [12,17) and
  the fixed \<open>12:00\<close> for every other hour.
\<close>

theorem getSmartEarliestTime_by_hour:
  "getSmartEarliestTime c =
     (if 12 \<le> londonHour c \<and> londonHour c < 17
      then String_of (londonHour c + 1) @ '':00'' else ''12:00'')"
  by (simp add: getSmartEarliestTime_def getHours_ukTime Let_def)

text \<open>The examples of the claim: hour 14 gives 15:00, hours 9 and 18 give 12:00.\<close>

theorem getSmartEarliestTime_examples:
  "londonHour friday14 = 14 \<and> getSmartEarliestTime friday14 = ''15:00'' \<and>
   londonHour tuesday09 = 9 \<and> getSmartEarliestTime tuesday09 = ''12:00'' \<and>
   londonHour friday18 = 18 \<and> getSmartEarliestTime friday18 = ''12:00''"
proof -
  have h: "londonHour friday14 = 14" "londonHour tuesday09 = 9" "londonHour friday18 = 18"
    by code_simp+
  have s: "String_of 15 = ''15''" by code_simp
  show ?thesis
    using getSmartEarliestTime_by_hour [of friday14] getSmartEarliestTime_by_hour [of tuesday09]
      getSmartEarliestTime_by_hour [of friday18]
    by (simp add: h s)
qed

text \<open>
  C5. \<open>getSmartDate\<close> should return the London calendar day (or the next one from 13:00),
  moved past the weekend. On Monday 30 June 2025 at 00:30 in London, in a process that
  runs in the London time zone, the hour is 0 and the day a weekday, yet the function
  returns Sunday 29 June: the target is printed with \<open>toISOString\<close>, in UTC, where it is
  still 23:30 of the day before.
\<close>

theorem getSmartDate_monday_after_midnight:
  "londonHour mondayAfterMidnight = 0 \<and>
   weekday (londonDay mondayAfterMidnight) = 1 \<and>
   isoDay (smartDay mondayAfterMidnight) = ''2025-06-30'' \<and>
   getSmartDate mondayAfterMidnight = ''2025-06-29''"
  by code_simp

section \<open>Element resolution and the fill sequence\<close>

lemma fillField_returns: "triple (\<lambda>_. True) (fillField orc labels v) (\<lambda>x _. x = Undefined)"
  by (induction labels) (auto intro!: triple_ret triple_then)

lemma fillField_value: "fst (fillField orc labels v w) = Inr Undefined"
proof -
  from nothrow_fillField [of orc labels v] obtain x w' where
    r: "fillField orc labels v w = (Inr x, w')" unfolding nothrow_def by blast
  with fillField_returns [of orc labels v] have "x = Undefined"
    unfolding triple_def by blast
  with r show ?thesis by simp
qed

text \<open>
  C8, as the code has it. \<open>fillField\<close> never throws, whatever the page answers: it returns
  \<open>undefined\<close> (it has no boolean result). The fill sequence of \<open>fillForm\<close> never throws
  either, and tries every field: the first query of each of its fields is among the calls
  it makes, whatever happened to the fields before.
\<close>

theorem fillField_never_throws:
  "(\<exists>w'. fillField orc labels v w = (Inr Undefined, w')) \<and>
   (\<exists>w'. fillFormFields orc st w = (Inr (), w')) \<and>
   list_all (\<lambda>label. Query (ariaSelector label) \<in> set (calls (fillFormFields orc st) w))
     [''Company'', ''Address Line 1'', ''City'', ''Postal Code'', ''Telephone'', ''Package'',
      ''Weight'', ''Email''] \<and>
   Query (selectSelector ''Preferred Collection Location'')
     \<in> set (calls (fillFormFields orc st) w)"
proof (intro conjI)
  from fillField_value [of orc labels v w]
  show "\<exists>w'. fillField orc labels v w = (Inr Undefined, w')"
    by (cases "fillField orc labels v w") auto
next
  from nothrow_fillFormFields [of orc st]
  show "\<exists>w'. fillFormFields orc st w = (Inr (), w')" unfolding nothrow_def by simp
next
  have "Query (ariaSelector ''Company'') \<in> set (calls (fillFormFields orc st) w)"
    and "Query (ariaSelector ''Address Line 1'') \<in> set (calls (fillFormFields orc st) w)"
    and "Query (ariaSelector ''City'') \<in> set (calls (fillFormFields orc st) w)"
    and "Query (ariaSelector ''Postal Code'') \<in> set (calls (fillFormFields orc st) w)"
    and "Query (ariaSelector ''Telephone'') \<in> set (calls (fillFormFields orc st) w)"
    and "Query (ariaSelector ''Package'') \<in> set (calls (fillFormFields orc st) w)"
    and "Query (ariaSelector ''Weight'') \<in> set (calls (fillFormFields orc st) w)"
    and "Query (ariaSelector ''Email'') \<in> set (calls (fillFormFields orc st) w)"
    unfolding fillFormFields_def by (intro field_attempted)+
  then show "list_all (\<lambda>label. Query (ariaSelector label) \<in> set (calls (fillFormFields orc st) w))
     [''Company'', ''Address Line 1'', ''City'', ''Postal Code'', ''Telephone'', ''Package'',
      ''Weight'', ''Email'']"
    by simp
next
  show "Query (selectSelector ''Preferred Collection Location'')
     \<in> set (calls (fillFormFields orc st) w)"
    unfolding fillFormFields_def by (intro field_attempted)
qed

text \<open>
  C8 as stated fails: where no strategy matches any variant, \<open>fillField\<close> returns
  \<open>undefined\<close> and not \<open>false\<close>, without a single fill; where the first strategy matches, it
  returns \<open>undefined\<close> as well, so that the caller cannot tell a miss from a hit.
\<close>

theorem fillField_returns_undefined:
  "fst (fillField nothingFound [''Company'', ''Company Name'', ''company''] ''YOUR_COMPANY'' idleWorld)
     = Inr Undefined \<and>
   fst (fillField nothingFound [''Company'', ''Company Name'', ''company''] ''YOUR_COMPANY'' idleWorld)
     \<noteq> Inr (Boolean False) \<and>
   filter isFill
     (calls (fillField nothingFound [''Company'', ''Company Name'', ''company''] ''YOUR_COMPANY'')
        idleWorld) = [] \<and>
   fst (fillField everythingFound [''Company'', ''Company Name'', ''company''] ''YOUR_COMPANY'' idleWorld)
     = Inr Undefined"
proof -
  have "filter isFill
     (calls (fillField nothingFound [''Company'', ''Company Name'', ''company''] ''YOUR_COMPANY'')
        idleWorld) = []"
    by code_simp
  then show ?thesis by (simp add: fillField_value del: fillField.simps)
qed

section \<open>Special instructions and numeric defaults\<close>




section \<open>Results of the operations\<close>

lemma stable_ready: "stable (\<lambda>w. settled w \<and> page w \<noteq> None)"
  by (intro stable_conj stable_settled stable_page)

lemma ok_fillForm_page:
  assumes "obliging orc" and "appears orc"
  shows "succeeds settled (fillForm orc options)
     (\<lambda>r w. success r \<and> \<not> error r \<and> settled w \<and> page w \<noteq> None)"
  unfolding succeeds_def
proof (intro allI impI)
  fix w assume "settled w"
  with ok_fillForm [OF assms, of options] obtain r w' where
    run: "fillForm orc options w = (Inr r, w')" and ok: "success r" "settled w'"
    unfolding succeeds_def by blast
  have "fillOutcome (clk w) options r"
    by (rule tripleD [OF fillForm_outcome _ run]) simp
  with ok have "\<not> error r" by (auto simp: fillOutcome_def split: if_splits)
  moreover have "page w' \<noteq> None"
    by (rule tripleD [OF fillForm_page _ run]) simp
  ultimately show "\<exists>x w'. fillForm orc options w = (Inr x, w') \<and>
      success x \<and> \<not> error x \<and> settled w' \<and> page w' \<noteq> None"
    using run ok by blast
qed

lemma ok_book:
  assumes "obliging orc" and "appears orc"
  shows "succeeds settled (book orc options) (\<lambda>r _. success r)"
  unfolding book_def
  apply (rule succeeds_andThen [OF ok_fillForm_page [OF assms]])
  apply (rule succeeds_assume, rule succeeds_assume)
  apply (simp only: if_False)
  apply (rule succeeds_seq)
   apply (rule succeeds_whenW)
   apply (rule succeeds_void)
   apply (rule succeeds_ext_unit [OF assms(1) _ stable_ready], simp)
  apply (rule succeeds_reads_then)
  subgoal for fillResult u p
    apply (cases p)
     apply (auto simp: succeeds_def)[1]
    apply simp
    apply (rule succeeds_weaken [where P' = "\<lambda>w. settled w \<and> page w \<noteq> None" and Q' = "\<lambda>r _. success r"])
      apply (rule succeeds_tryCatch)
      apply (rule succeeds_seq [OF ok_dismissCookieBanners [OF assms(1) stable_ready]])
      apply (rule succeeds_ext_then [OF assms(1) _ stable_ready], simp)
      apply (rule succeeds_ext_then [OF assms(1) _ stable_ready], simp)
      apply (rule succeeds_seq)
       apply (unfold nextSelectors_def, rule ok_clickOrScript [OF assms(1) stable_ready])
      apply (rule succeeds_ext_then [OF assms(1) _ stable_ready], simp)
      apply (rule succeeds_ext_then [OF assms(1) _ stable_ready], simp)
      apply (rule succeeds_seq [OF ok_dismissCookieBanners [OF assms(1) stable_ready]])
      apply (rule succeeds_seq [OF ok_screenshotAs [OF assms(1) stable_ready]])
      apply (rule succeeds_ext_then [OF assms(1) _ stable_ready], simp)
      apply (rule succeeds_ext_then [OF assms(1) _ stable_ready], simp)
      apply (rule succeeds_seq)
       apply (unfold submitSelectors_def, rule ok_clickOrScript [OF assms(1) stable_ready])
      apply (rule succeeds_ext_then [OF assms(1) _ stable_ready], simp)
      apply (rule succeeds_ext_then [OF assms(1) _ stable_ready], simp)
      apply (rule succeeds_seq [OF ok_screenshotAs [OF assms(1) stable_ready]])
      apply (rule succeeds_seq [OF ok_extractConfirmation [OF assms(1) stable_ready]])
      apply (rule succeeds_andThen [where R = "\<lambda>_ _. True"])
       apply (rule succeeds_weaken [OF ok_reset [OF assms(1)]], simp, simp)
      apply (rule succeeds_ret, simp add: no_result_def)
     apply simp
    apply simp
    done
  done

lemma obliging_everythingFound: "obliging everythingFound"
  by (simp add: obliging_def everythingFound_def)

lemma appears_everythingFound: "appears everythingFound"
  by (simp add: appears_def everythingFound_def)

lemma settled_staleWorld: "settled staleWorld"
  by (simp add: settled_def staleWorld_def SESSION_PATH_def USER_DATA_DIR_def)

text \<open>
  C2, as the code has it. Every result that \<open>fillForm\<close> or \<open>book\<close> returns carries a
  screenshot path, and so does every result of \<open>submit\<close> but one: the refusal to submit a
  form that was not filled, which is returned before the page is touched.
\<close>

theorem results_carry_screenshots:
  "(fillForm orc options w = (Inr r, w') \<longrightarrow> screenshot r \<noteq> None \<and> page w' \<noteq> None) \<and>
   (submit orc w = (Inr r, w') \<longrightarrow> screenshot r \<noteq> None \<or> r = notFilledError) \<and>
   (book orc options w = (Inr r, w') \<longrightarrow> screenshots r \<noteq> [])"
proof (intro conjI impI)
  assume run: "fillForm orc options w = (Inr r, w')"
  have "fillOutcome (clk w) options r"
    by (rule tripleD [OF fillForm_outcome _ run]) simp
  then show "screenshot r \<noteq> None" by (simp add: fillOutcome_def)
  show "page w' \<noteq> None" by (rule tripleD [OF fillForm_page _ run]) simp
next
  assume run: "submit orc w = (Inr r, w')"
  show "screenshot r \<noteq> None \<or> r = notFilledError"
    by (rule tripleD [OF submit_outcome _ run]) simp
next
  assume run: "book orc options w = (Inr r, w')"
  show "screenshots r \<noteq> []" by (rule tripleD [OF book_outcome _ run]) simp
qed

lemma submit_filled_run:
  "\<not> isl (fst (submit everythingFound filledWorld)) \<and>
   success (projr (fst (submit everythingFound filledWorld)))"
  by (simp add: run_basic run_files run_session run_submit run_paths everythingFound_def
        staleWorld_def filledWorld_def staleSession_def truthy_def no_result_def
        del: removeSingletons.simps)

theorem results_carry_screenshots_witness:
  "(\<exists>r w'. fillForm everythingFound someOptions staleWorld = (Inr r, w') \<and> success r \<and>
       screenshot r \<noteq> None) \<and>
   (\<exists>r w'. submit everythingFound filledWorld = (Inr r, w') \<and> success r \<and>
       screenshot r \<noteq> None) \<and>
   (\<exists>r w'. book everythingFound someOptions staleWorld = (Inr r, w') \<and> success r \<and>
       screenshots r \<noteq> [])"
proof (intro conjI)
  from ok_fillForm [OF obliging_everythingFound appears_everythingFound, of someOptions]
    settled_staleWorld
  obtain r w' where run: "fillForm everythingFound someOptions staleWorld = (Inr r, w')"
    and ok: "success r" unfolding succeeds_def by blast
  from results_carry_screenshots [of everythingFound someOptions staleWorld r w'] run
  have "screenshot r \<noteq> None" by simp
  with run ok show "\<exists>r w'. fillForm everythingFound someOptions staleWorld = (Inr r, w') \<and>
      success r \<and> screenshot r \<noteq> None" by blast
next
  obtain r w' where run: "submit everythingFound filledWorld = (Inr r, w')" and ok: "success r"
    using submit_filled_run
    by (cases "submit everythingFound filledWorld"; cases "fst (submit everythingFound filledWorld)")
       auto
  from ok have "r \<noteq> notFilledError" by (auto simp: notFilledError_def no_result_def)
  with results_carry_screenshots [of everythingFound someOptions filledWorld r w'] run
  have "screenshot r \<noteq> None" by simp
  with run ok show "\<exists>r w'. submit everythingFound filledWorld = (Inr r, w') \<and> success r \<and>
      screenshot r \<noteq> None" by blast
next
  from ok_book [OF obliging_everythingFound appears_everythingFound, of someOptions]
    settled_staleWorld
  obtain r w' where run: "book everythingFound someOptions staleWorld = (Inr r, w')"
    and ok: "success r" unfolding succeeds_def by blast
  from results_carry_screenshots [of everythingFound someOptions staleWorld r w'] run
  have "screenshots r \<noteq> []" by simp
  with run ok show "\<exists>r w'. book everythingFound someOptions staleWorld = (Inr r, w') \<and>
      success r \<and> screenshots r \<noteq> []" by blast
qed

text \<open>
  C2 as stated fails: with a live page at hand (the reconnected one), \<open>submit\<close> on a
  session whose form is not filled returns an error result with no screenshot path.
\<close>

theorem submit_refusal_has_no_screenshot:
  "fst (submit everythingFound staleWorld) = Inr notFilledError \<and>
   error notFilledError \<and> screenshots notFilledError = [] \<and>
   page (snd (submit everythingFound staleWorld)) = Some Reconnected"
  by (simp add: run_basic run_files run_session run_submit run_paths everythingFound_def
        staleWorld_def staleSession_def truthy_def screenshots_def notFilledError_def no_result_def
        del: removeSingletons.simps)

section \<open>Numeric defaults\<close>





section \<open>Login on a session that is already signed in\<close>

lemma never_fillForm:
  assumes "obliging orc" and "neverAppears orc"
  shows "throws settled (fillForm orc options)
     (\<lambda>e w. e = ''Could not find username field. See screenshot: '' @ SCREENSHOT_DIR @ ''/''
                @ ''ups-login-error-no-username-'' @ String_of (now (clk w)) @ ''.png'')"
  unfolding fillForm_def
  apply (rule throws_seq [OF ok_ensureBrowser [OF assms(1)]])
  apply (rule throws_first [OF never_login [OF assms]])
  done

lemma obliging_signedIn: "obliging signedIn"
  unfolding obliging_def
proof (intro allI)
  fix n c show "isWait c \<or> (\<exists>v. signedIn n c = Value v)"
    by (cases c) (simp_all add: signedIn_def)
qed

lemma neverAppears_signedIn: "neverAppears signedIn"
  by (simp add: neverAppears_def signedIn_def)

lemma settled_signedInWorld: "settled signedInWorld"
  by (simp add: settled_def signedInWorld_def staleWorld_def SESSION_PATH_def USER_DATA_DIR_def)

text \<open>
  C3. On a session that is already signed in (the browser of the descriptor is alive, the
  descriptor says \<open>loggedIn\<close>, and no username field ever appears), \<open>login\<close> does not pass:
  it throws the missing-username-field error, and \<open>fillForm\<close>, which logs in first and
  outside any \<open>try\<close>, throws it to its caller.
\<close>

theorem login_on_signed_in_session:
  "files signedInWorld SESSION_PATH = Some (Json (staleSession\<lparr>loggedIn := True\<rparr>)) \<and>
   fst (login signedIn signedInWorld) =
     Inl ''Could not find username field. See screenshot: /home/USER/biz/.playwright-mcp/ups-login-error-no-username-1751239800000.png'' \<and>
   fst (fillForm signedIn someOptions signedInWorld) =
     Inl ''Could not find username field. See screenshot: /home/USER/biz/.playwright-mcp/ups-login-error-no-username-1751239800000.png''"
proof (intro conjI)
  show "files signedInWorld SESSION_PATH = Some (Json (staleSession\<lparr>loggedIn := True\<rparr>))"
    by (simp add: signedInWorld_def)
  have t: "now (clk signedInWorld) = 1751239800000"
    by (simp add: signedInWorld_def staleWorld_def mondayAfterMidnight_def)
  from never_login [OF obliging_signedIn neverAppears_signedIn] settled_signedInWorld
  obtain e w' where run: "login signedIn signedInWorld = (Inl e, w')"
    and e: "e = ''Could not find username field. See screenshot: '' @ SCREENSHOT_DIR @ ''/''
                @ ''ups-login-error-no-username-'' @ String_of (now (clk w')) @ ''.png''"
    unfolding throws_def by blast
  have "moves anyCall signedInWorld w'" by (rule stepsD [OF steps_login run])
  then have "clk w' = clk signedInWorld" by (simp add: moves_def)
  with run e t show "fst (login signedIn signedInWorld) =
     Inl ''Could not find username field. See screenshot: /home/USER/biz/.playwright-mcp/ups-login-error-no-username-1751239800000.png''"
    by (simp add: stamp SCREENSHOT_DIR_def)
next
  have t: "now (clk signedInWorld) = 1751239800000"
    by (simp add: signedInWorld_def staleWorld_def mondayAfterMidnight_def)
  from never_fillForm [OF obliging_signedIn neverAppears_signedIn, of someOptions]
    settled_signedInWorld
  obtain e w' where run: "fillForm signedIn someOptions signedInWorld = (Inl e, w')"
    and e: "e = ''Could not find username field. See screenshot: '' @ SCREENSHOT_DIR @ ''/''
                @ ''ups-login-error-no-username-'' @ String_of (now (clk w')) @ ''.png''"
    unfolding throws_def by blast
  have "moves anyCall signedInWorld w'" by (rule stepsD [OF steps_fillForm run])
  then have "clk w' = clk signedInWorld" by (simp add: moves_def)
  with run e t show "fst (fillForm signedIn someOptions signedInWorld) =
     Inl ''Could not find username field. See screenshot: /home/USER/biz/.playwright-mcp/ups-login-error-no-username-1751239800000.png''"
    by (simp add: stamp SCREENSHOT_DIR_def)
qed

section \<open>Submitting a form that was not filled\<close>

text \<open>
  Where the check of \<open>submit\<close> finds a descriptor whose form is not filled, it refuses, and
  no call has touched the page.
\<close>

lemma submit_refuses_unfilled:
  assumes acquired: "ensureBrowser orc w = (Inr p, w1)"
    and descriptor: "files w1 SESSION_PATH = Some (Json s)" "\<not> formFilled s"
    and readable: "\<forall>e. orc (length (trace w1)) (ReadFile SESSION_PATH) \<noteq> Throws e"
  shows "fst (submit orc w) = Inr notFilledError \<and> list_all offPage (calls (submit orc) w)"
proof -
  let ?w2 = "w1\<lparr>trace := trace w1 @ [ReadFile SESSION_PATH]\<rparr>"
  have check: "notFilled orc w1 = (Inr True, ?w2)"
    using descriptor readable
    by (cases "orc (length (trace w1)) (ReadFile SESSION_PATH)")
       (simp_all add: notFilled_def run_basic run_files)
  have run: "submit orc w = (Inr notFilledError, ?w2)"
    by (simp add: submit_def run_andThen run_ret acquired check)
  have "moves offPage w w1"
    by (rule stepsD [OF steps_ensureBrowser acquired])
  then obtain cs where cs: "trace w1 = trace w @ cs" "list_all offPage cs"
    unfolding moves_def by blast
  have "calls (submit orc) w = cs @ [ReadFile SESSION_PATH]"
    by (simp add: calls_def run cs)
  with cs run show ?thesis by (simp add: offPage_def)
qed

text \<open>
  C1. \<open>submit\<close> should refuse whenever no filled form is recorded. Here the descriptor on
  disk says the form is not filled and its browser is gone: \<open>ensureBrowser\<close> deletes the
  descriptor and launches a browser that exposes no endpoint, so that no descriptor is
  written; the check, which is skipped when the file is missing, lets \<open>submit\<close> go on to
  query, screenshot and read the blank page, and report a submitted collection.
\<close>

theorem submit_without_fill_proceeds:
  "files staleWorld SESSION_PATH = Some (Json staleSession) \<and> \<not> formFilled staleSession \<and>
   fst (submit browserGone staleWorld) =
     Inr (no_result\<lparr>success := True,
            screenshot := Some ''/home/USER/biz/.playwright-mcp/ups-confirmation-1751239800000.png'',
            reviewScreenshot := Some ''/home/USER/biz/.playwright-mcp/ups-review-1751239800000.png'',
            confirmation := Some (Extracted []),
            message := ''Collection submitted successfully.''\<rparr>) \<and>
   filter page_call (calls (submit browserGone) staleWorld) =
     [Query nextSelector,
      Screenshot ''/home/USER/biz/.playwright-mcp/ups-review-1751239800000.png'',
      Query submitSelector,
      Screenshot ''/home/USER/biz/.playwright-mcp/ups-confirmation-1751239800000.png'',
      Evaluate ''extractConfirmation'' []]"
  by (simp add: calls_def run_basic run_files run_session run_submit run_paths browserGone_def
        staleWorld_def staleSession_def truthy_def mondayAfterMidnight_def stamp
        del: removeSingletons.simps)

section \<open>Reset\<close>





section \<open>Acquiring a page after a failed reconnection\<close>











end
